theory Spec2Isabelle
  imports Main "HOL-Library.AList" "HOL-Library.Numeral_Type"
begin

section \<open>Categories and parents\<close>

text \<open>
  Modelled from the spec: the category framework that \<^verbatim>\<open>algebra_functor.py\<close> builds on
  (\<^verbatim>\<open>Category\<close>, \<^verbatim>\<open>is_subcategory\<close>, membership \<^verbatim>\<open>x in C\<close>) is not part of the
  file. The module documentation names the lattice: sets, magmas, semigroups, monoids,
  groups, their additive analogues, and rings. A category is represented by the axioms
  its objects satisfy; a category with more axioms is a subcategory.
\<close>

datatype cat_axiom =
    Magma | Associative | Unital | Inverse | Commutative
  | AdditiveMagma | AdditiveAssociative | AdditiveUnital | AdditiveInverse
  | AdditiveCommutative | Distributive | Finite

type_synonym category = "cat_axiom set"

definition is_subcategory :: "category \<Rightarrow> category \<Rightarrow> bool" where
  "is_subcategory C D = (D \<subseteq> C)"

definition Sets :: category where
  "Sets = {}"

definition Magmas :: category where
  "Magmas = {Magma}"

definition Semigroups :: category where
  "Semigroups = {Magma, Associative}"

definition Monoids :: category where
  "Monoids = {Magma, Associative, Unital}"

definition Groups :: category where
  "Groups = {Magma, Associative, Unital, Inverse}"

definition AdditiveMagmas :: category where
  "AdditiveMagmas = {AdditiveMagma}"

definition AdditiveSemigroups :: category where
  "AdditiveSemigroups = {AdditiveMagma, AdditiveAssociative}"

definition AdditiveMonoids :: category where
  "AdditiveMonoids = {AdditiveMagma, AdditiveAssociative, AdditiveUnital}"

definition AdditiveGroups :: category where
  "AdditiveGroups = {AdditiveMagma, AdditiveAssociative, AdditiveUnital, AdditiveInverse}"

definition CommutativeAdditiveGroups :: category where
  "CommutativeAdditiveGroups = insert AdditiveCommutative AdditiveGroups"

definition Rings :: category where
  "Rings = insert Distributive (Monoids \<union> CommutativeAdditiveGroups)"

text \<open>
  A parent (a ring, a group, ...) has a printed name and a category
  (\<^verbatim>\<open>P.category()\<close>); \<^verbatim>\<open>P in C\<close> asks whether that category is a subcategory of \<open>C\<close>.
\<close>

record parent =
  parent_name :: string
  parent_category :: category

definition in_category :: "'a parent_scheme \<Rightarrow> category \<Rightarrow> bool" where
  "in_category P C = is_subcategory (parent_category P) C"

text \<open>
  A structure \<open>S\<close> whose algebra is taken: a parent whose elements have type \<open>'g\<close>,
  with the membership test \<^verbatim>\<open>g in S\<close>, the Python operators \<^verbatim>\<open>g * h\<close> and \<^verbatim>\<open>g + h\<close> of
  its elements and its units \<^verbatim>\<open>S.one()\<close> and \<^verbatim>\<open>S.zero()\<close> where they are defined
  (\<open>None\<close>: not supported).
\<close>

record 'g struct = parent +
  contains :: "'g \<Rightarrow> bool"
  times_op :: "('g \<Rightarrow> 'g \<Rightarrow> 'g) option"
  plus_op :: "('g \<Rightarrow> 'g \<Rightarrow> 'g) option"
  one_elt :: "'g option"
  zero_elt :: "'g option"

datatype error = AssertionError | TypeError string | IndexError

section \<open>The algebra of a structure\<close>

text \<open>
  \<^verbatim>\<open>class AlgebrasCategory(CovariantConstructionCategory, Category_over_base_ring)\<close>:
  the category \<^verbatim>\<open>C.Algebras(R)\<close> is determined by its base category and its base ring.
\<close>

record AlgebrasCategory =
  base_category :: category
  category_base_ring :: parent

text \<open>The parent \<^verbatim>\<open>S.algebra(R)\<close>: its base ring, its basis keys and its category.\<close>

record 'g algebra_parent =
  algebra_base_ring :: parent
  basis_keys :: "'g struct"
  algebra_category :: AlgebrasCategory

text \<open>
  Modelled from the spec: the method \<^verbatim>\<open>S.algebra(base_ring, category=None)\<close>
  (\<^verbatim>\<open>Sets.ParentMethods.algebra\<close>) that both functors delegate to is not part of the
  file. Following the module documentation (section "Specifying the algebraic structure"):
  the category argument says which structure of \<open>S\<close> is extended and defaults to the
  category of \<open>S\<close>; a category that is both an additive and a multiplicative semigroup is
  ambiguous and raises \<^verbatim>\<open>TypeError\<close>; otherwise the result is the free module with basis
  indexed by \<open>S\<close>, in the category of \<^verbatim>\<open>category\<close>-algebras over the base ring.
\<close>

definition ambiguous_message :: string where
  "ambiguous_message = ''is both an additive and a multiplicative semigroup. Constructing its algebra is ambiguous.''"

definition algebra :: "'g struct \<Rightarrow> parent \<Rightarrow> category option \<Rightarrow> error + 'g algebra_parent" where
  "algebra S base_ring category =
     (let cat = (case category of None \<Rightarrow> parent_category S | Some c \<Rightarrow> c) in
      if is_subcategory cat Semigroups \<and> is_subcategory cat AdditiveSemigroups
      then Inl (TypeError ambiguous_message)
      else Inr \<lparr>algebra_base_ring = base_ring, basis_keys = S,
                algebra_category = \<lparr>base_category = cat, category_base_ring = base_ring\<rparr>\<rparr>)"

text \<open>
  The category that \<^verbatim>\<open>algebra\<close> extends: the category argument, or the category of \<open>S\<close>
  when there is none.
\<close>

definition selected_category :: "'g struct \<Rightarrow> category option \<Rightarrow> category" where
  "selected_category S category = (case category of None \<Rightarrow> parent_category S | Some c \<Rightarrow> c)"

section \<open>AlgebraFunctor\<close>

text \<open>
  \<^verbatim>\<open>
  def __init__(self, base_ring):
      from sage.categories.rings import Rings
      assert base_ring in Rings()
      self._base_ring = base_ring
  def base_ring(self):
      return self._base_ring
  def __call__(self, G, category=None):
      return G.algebra(self._base_ring, category=category)
  \<close>
\<close>

record AlgebraFunctor =
  functor_base_ring :: parent

definition AlgebraFunctor_init :: "parent \<Rightarrow> error + AlgebraFunctor" where
  "AlgebraFunctor_init base_ring =
     (if in_category base_ring Rings then Inr \<lparr>functor_base_ring = base_ring\<rparr>
      else Inl AssertionError)"

definition AlgebraFunctor_base_ring :: "AlgebraFunctor \<Rightarrow> parent" where
  "AlgebraFunctor_base_ring self = functor_base_ring self"

definition AlgebraFunctor_call ::
  "AlgebraFunctor \<Rightarrow> 'g struct \<Rightarrow> category option \<Rightarrow> error + 'g algebra_parent" where
  "AlgebraFunctor_call self G category = algebra G (functor_base_ring self) category"

section \<open>GroupAlgebraFunctor\<close>

text \<open>
  \<^verbatim>\<open>
  def __init__(self, group):
      self.__group = group
      from sage.categories.rings import Rings
      ConstructionFunctor.__init__(self, Rings(), Rings())
  def group(self):
      return self.__group
  def _apply_functor(self, base_ring):
      return self.__group.algebra(base_ring)
  \<close>
\<close>

record 'g GroupAlgebraFunctor =
  functor_group :: "'g struct"
  functor_domain :: category
  functor_codomain :: category

definition GroupAlgebraFunctor_init :: "'g struct \<Rightarrow> 'g GroupAlgebraFunctor" where
  "GroupAlgebraFunctor_init G =
     \<lparr>functor_group = G, functor_domain = Rings, functor_codomain = Rings\<rparr>"

definition GroupAlgebraFunctor_group :: "'g GroupAlgebraFunctor \<Rightarrow> 'g struct" where
  "GroupAlgebraFunctor_group self = functor_group self"

definition apply_functor :: "'g GroupAlgebraFunctor \<Rightarrow> parent \<Rightarrow> error + 'g algebra_parent" where
  "apply_functor self base_ring = algebra (functor_group self) base_ring None"

text \<open>
  Modelled from the spec: the call operator \<^verbatim>\<open>F(R)\<close> of a construction functor is
  inherited from \<^verbatim>\<open>Functor\<close>, which is not part of the file. On an object of the domain
  category fixed by \<^verbatim>\<open>__init__\<close> it returns \<^verbatim>\<open>_apply_functor\<close> of that object; an
  object outside the domain is refused.
\<close>

definition GroupAlgebraFunctor_call ::
  "'g GroupAlgebraFunctor \<Rightarrow> parent \<Rightarrow> error + 'g algebra_parent" where
  "GroupAlgebraFunctor_call self x =
     (if in_category x (functor_domain self) then apply_functor self x
      else Inl (TypeError ''x is not in the domain''))"

section \<open>Elements of a free module\<close>

text \<open>
  Modelled from the spec: the free module framework (\<^verbatim>\<open>CombinatorialFreeModule\<close>) that
  the file builds on is not part of it. An element is a dictionary from basis indices to
  coefficients, here an association list in insertion order; iterating over an element
  yields its \<^verbatim>\<open>(index, coefficient)\<close> pairs. Coefficients are added, multiplied and
  compared with zero by the operators of their own type, as the Python operators are.
  \<^verbatim>\<open>x[g]\<close> is the coefficient of \<open>g\<close>, zero where \<open>g\<close> is not a key.
\<close>

definition coefficient :: "('g \<times> 'c::zero) list \<Rightarrow> 'g \<Rightarrow> 'c" where
  "coefficient x g = (case map_of x g of None \<Rightarrow> 0 | Some c \<Rightarrow> c)"

definition is_dict :: "('g \<times> 'c) list \<Rightarrow> bool" where
  "is_dict x = distinct (map fst x)"

definition is_element :: "('g \<times> 'c::zero) list \<Rightarrow> bool" where
  "is_element x = (is_dict x \<and> list_all (\<lambda>t. snd t \<noteq> 0) x)"

text \<open>
  Modelled from the spec: \<^verbatim>\<open>sum_of_terms\<close> adds the terms of an iterable of
  \<^verbatim>\<open>(index, coefficient)\<close> pairs into a dictionary, one after the other, and removes the
  indices whose coefficient has become zero.
\<close>

definition add_term :: "('g \<times> 'c::plus) list \<Rightarrow> 'g \<times> 'c \<Rightarrow> ('g \<times> 'c) list" where
  "add_term d t =
     (case map_of d (fst t) of
        None \<Rightarrow> AList.update (fst t) (snd t) d
      | Some c \<Rightarrow> AList.update (fst t) (c + snd t) d)"

definition remove_zeros :: "('g \<times> 'c::zero) list \<Rightarrow> ('g \<times> 'c) list" where
  "remove_zeros d = filter (\<lambda>t. snd t \<noteq> 0) d"

definition sum_of_terms :: "('g \<times> 'c::{zero,plus}) list \<Rightarrow> ('g \<times> 'c) list" where
  "sum_of_terms ts = remove_zeros (foldl add_term [] ts)"

section \<open>Lifting a ring morphism\<close>

text \<open>
  A morphism has a domain, a codomain and the map it applies to an element
  (\<^verbatim>\<open>f.domain()\<close>, \<^verbatim>\<open>f.codomain()\<close>, \<^verbatim>\<open>f(c)\<close>). \<^verbatim>\<open>X.Hom(Y, category=C)\<close> is the
  homset from \<open>X\<close> to \<open>Y\<close> in \<open>C\<close>, and \<^verbatim>\<open>SetMorphism(H, function)\<close> is the morphism of
  the homset \<open>H\<close> that applies \<^verbatim>\<open>function\<close>.
\<close>

record ('a, 'b) ring_morphism =
  morphism_domain :: parent
  morphism_codomain :: parent
  morphism_map :: "'a \<Rightarrow> 'b"

record ('d, 'e) Homset =
  hom_domain :: 'd
  hom_codomain :: 'e
  hom_category :: category

definition Hom :: "'d \<Rightarrow> 'e \<Rightarrow> category \<Rightarrow> ('d, 'e) Homset" where
  "Hom X Y C = \<lparr>hom_domain = X, hom_codomain = Y, hom_category = C\<rparr>"

record ('d, 'e, 'x, 'y) SetMorphism =
  morphism_parent :: "('d, 'e) Homset"
  morphism_function :: "'x \<Rightarrow> 'y"

text \<open>
  \<^verbatim>\<open>
  def _apply_functor_to_morphism(self, f):
      from sage.categories.rings import Rings
      domain = self(f.domain())
      codomain = self(f.codomain())
      return SetMorphism(domain.Hom(codomain, category=Rings()),
                         lambda x: codomain.sum_of_terms((g, f(c)) for (g, c) in x))
  \<close>
\<close>

definition apply_functor_to_morphism ::
  "'g GroupAlgebraFunctor \<Rightarrow> ('a, 'b::{zero,plus}) ring_morphism \<Rightarrow>
   error + ('g algebra_parent, 'g algebra_parent, ('g \<times> 'a) list, ('g \<times> 'b) list) SetMorphism" where
  "apply_functor_to_morphism self f =
     (case GroupAlgebraFunctor_call self (morphism_domain f) of
        Inl e \<Rightarrow> Inl e
      | Inr domain \<Rightarrow>
         (case GroupAlgebraFunctor_call self (morphism_codomain f) of
            Inl e \<Rightarrow> Inl e
          | Inr codomain \<Rightarrow>
              Inr \<lparr>morphism_parent = Hom domain codomain Rings,
                   morphism_function =
                     (\<lambda>x. sum_of_terms (map (\<lambda>(g, c). (g, morphism_map f c)) x))\<rparr>))"

text \<open>
  A morphism of rings: its domain and codomain are rings and its map preserves the unit,
  sums and products.
\<close>

definition ring_hom :: "('a::{ring,monoid_mult} \<Rightarrow> 'b::{ring,monoid_mult}) \<Rightarrow> bool" where
  "ring_hom h = (h 1 = 1 \<and> (\<forall>a b. h (a + b) = h a + h b) \<and> (\<forall>a b. h (a * b) = h a * h b))"

definition is_ring_morphism :: "('a::{ring,monoid_mult}, 'b::{ring,monoid_mult}) ring_morphism \<Rightarrow> bool" where
  "is_ring_morphism f =
     (in_category (morphism_domain f) Rings \<and> in_category (morphism_codomain f) Rings \<and>
      ring_hom (morphism_map f))"



section \<open>Operations of the algebra\<close>

text \<open>
  Modelled from the spec: the operations of the algebra of \<open>S\<close> are inherited from the
  free module framework and from the categories of \<open>S\<close>-algebras, which are not part of
  the file. \<^verbatim>\<open>A.term(g, c)\<close> is the element with coefficient \<open>c\<close> on \<open>g\<close>, with \<open>c\<close> the
  unit of the base ring when omitted; \<^verbatim>\<open>A.monomial(g)\<close> is the basis element \<open>B[g]\<close>;
  elements are added term by term; \<^verbatim>\<open>linear_combination\<close> sums elements scaled by
  coefficients on the left.
\<close>

definition basis_term :: "'g \<Rightarrow> 'c::{zero,plus} \<Rightarrow> ('g \<times> 'c) list" where
  "basis_term g c = sum_of_terms [(g, c)]"

definition monomial :: "'g \<Rightarrow> ('g \<times> 'c::{zero,plus,one}) list" where
  "monomial g = basis_term g 1"

definition element_add :: "('g \<times> 'c::{zero,plus}) list \<Rightarrow> ('g \<times> 'c) list \<Rightarrow> ('g \<times> 'c) list" where
  "element_add x y = sum_of_terms (x @ y)"

definition scale_terms :: "'c::times \<Rightarrow> ('g \<times> 'c) list \<Rightarrow> ('g \<times> 'c) list" where
  "scale_terms a v = map (\<lambda>(k, e). (k, a * e)) v"

definition scalar_mult :: "'c::{zero,plus,times} \<Rightarrow> ('g \<times> 'c) list \<Rightarrow> ('g \<times> 'c) list" where
  "scalar_mult a v = sum_of_terms (scale_terms a v)"

definition linear_combination ::
  "(('g \<times> 'c::{zero,plus,times}) list \<times> 'c) list \<Rightarrow> ('g \<times> 'c) list" where
  "linear_combination vs = sum_of_terms (concat (map (\<lambda>(v, a). scale_terms a v) vs))"

text \<open>
  Modelled from the spec: the algebra of \<open>S\<close> is the free module with basis indexed by the
  elements of \<open>S\<close>. Its elements are the dictionaries whose indices are elements of \<open>S\<close>
  and whose coefficients are not zero.
\<close>

definition algebra_element :: "'g algebra_parent \<Rightarrow> ('g \<times> 'c::zero) list \<Rightarrow> bool" where
  "algebra_element A x = (is_element x \<and> list_all (\<lambda>t. contains (basis_keys A) (fst t)) x)"

text \<open>
  Modelled from the spec: the multiplication of the algebra is induced by the operation of
  \<open>S\<close> that the category of the algebra extends: the multiplication of \<open>S\<close> for the algebras
  of a category of multiplicative magmas, the addition of \<open>S\<close> for the algebras of a
  category of additive magmas. The product of two basis elements is the basis element
  indexed by the result of the operation, the unit is indexed by the unit of \<open>S\<close>, and the
  product of two elements extends the product of basis elements by bilinearity. The
  documentation determines no product where the category has neither or both structures.
\<close>

definition induced_operation :: "'g algebra_parent \<Rightarrow> ('g \<Rightarrow> 'g \<Rightarrow> 'g) option" where
  "induced_operation A =
     (let C = base_category (algebra_category A); S = basis_keys A in
      if Magma \<in> C \<and> AdditiveMagma \<notin> C then times_op S
      else if AdditiveMagma \<in> C \<and> Magma \<notin> C then plus_op S
      else None)"


definition product_from_product_on_basis ::
  "('g \<Rightarrow> 'g \<Rightarrow> ('g \<times> 'c) list) \<Rightarrow> ('g \<times> 'c) list \<Rightarrow> ('g \<times> 'c) list \<Rightarrow>
   ('g \<times> 'c::{zero,plus,times}) list" where
  "product_from_product_on_basis pob x y =
     linear_combination (concat (map (\<lambda>(g, c). map (\<lambda>(h, d). (pob g h, c * d)) y) x))"

definition product ::
  "'g algebra_parent \<Rightarrow> ('g \<times> 'c) list \<Rightarrow> ('g \<times> 'c) list \<Rightarrow>
   error + ('g \<times> 'c::{zero,plus,times,one}) list" where
  "product A x y =
     (case induced_operation A of
        None \<Rightarrow> Inl (TypeError ''no product on the basis'')
      | Some m \<Rightarrow> Inr (product_from_product_on_basis (\<lambda>g h. monomial (m g h)) x y))"


section \<open>The coproduct\<close>

text \<open>
  Modelled from the spec: \<^verbatim>\<open>tensor\<close> of two elements of modules with basis is the
  bilinear extension of \<open>(B[g], B[h]) \<mapsto> B[(g, h)]\<close>; it is not part of the file.
\<close>

definition tensor ::
  "('g \<times> 'c::{zero,plus,times}) list \<Rightarrow> ('h \<times> 'c) list \<Rightarrow> (('g \<times> 'h) \<times> 'c) list" where
  "tensor x y = sum_of_terms (concat (map (\<lambda>(g, c). map (\<lambda>(h, d). ((g, h), c * d)) y) x))"

text \<open>
  \<^verbatim>\<open>
  def coproduct_on_basis(self, g):
      from sage.categories.tensor import tensor
      g = self.term(g)
      return tensor([g, g])
  \<close>
\<close>

definition coproduct_on_basis ::
  "'g algebra_parent \<Rightarrow> 'g \<Rightarrow> (('g \<times> 'g) \<times> 'c::{zero,plus,times,one}) list" where
  "coproduct_on_basis self g = (let t = basis_term g 1 in tensor t t)"

text \<open>
  Modelled from the spec: the coproduct of an element is computed from
  \<^verbatim>\<open>coproduct_on_basis\<close> by linearity, by the category of coalgebras with basis.
\<close>

definition coproduct ::
  "'g algebra_parent \<Rightarrow> ('g \<times> 'c) list \<Rightarrow> (('g \<times> 'g) \<times> 'c::{zero,plus,times,one}) list" where
  "coproduct self x = linear_combination (map (\<lambda>(g, c). (coproduct_on_basis self g, c)) x)"

section \<open>The class call of AlgebrasCategory\<close>

text \<open>
  A category class has a name, the names of the classes it inherits from, and the category
  it constructs when called without arguments (\<^verbatim>\<open>Cat()\<close>). The first argument of the class
  call is \<^verbatim>\<open>None\<close>, a category object (an instance of a category class) or a parent such
  as a ring; \<^verbatim>\<open>isinstance\<close> holds for the class of a category object and the classes
  it inherits from.
\<close>

record category_class =
  class_name :: string
  class_bases :: "string list"
  class_call :: category

datatype pyobject = PyNone | PyCategory category_class category | PyParent parent

definition isinstance :: "pyobject \<Rightarrow> category_class \<Rightarrow> bool" where
  "isinstance obj cls =
     (case obj of
        PyCategory c _ \<Rightarrow> class_name cls \<in> set (class_name c # class_bases c)
      | _ \<Rightarrow> False)"

text \<open>
  A subclass of \<^verbatim>\<open>AlgebrasCategory\<close> has the class attributes \<^verbatim>\<open>_base_category_class\<close>
  (a tuple of category classes) and \<^verbatim>\<open>_functor_category\<close>, which \<^verbatim>\<open>AlgebrasCategory\<close>
  sets to \<^verbatim>\<open>"Algebras"\<close> and its subclasses inherit.
\<close>

record algebras_class =
  base_category_class_tuple :: "category_class list"
  functor_category_name :: string

definition AlgebrasCategory_class :: algebras_class where
  "AlgebrasCategory_class = \<lparr>base_category_class_tuple = [], functor_category_name = ''Algebras''\<rparr>"

text \<open>
  Modelled from the spec: the category framework is not part of the file. Category objects
  are unique for the arguments they are constructed from, so a category obtained by a
  functorial construction is represented by the name of the construction, the base
  category and the further arguments. \<^verbatim>\<open>cls.category_of(category, *args)\<close> is the
  category of the construction named by \<^verbatim>\<open>cls._functor_category\<close> on \<^verbatim>\<open>category\<close> with
  \<^verbatim>\<open>args\<close>; \<^verbatim>\<open>category.Algebras(R)\<close> is \<^verbatim>\<open>AlgebrasCategory.category_of(category, R)\<close>;
  the class call inherited from the unique representation constructs the instance of
  \<^verbatim>\<open>cls\<close> for its arguments. \<^verbatim>\<open>Cat()\<close> is the category object of the class \<^verbatim>\<open>Cat\<close>.
\<close>

record construction_category =
  construction_name :: string
  construction_base :: pyobject
  construction_args :: "pyobject list"

definition instantiate :: "category_class \<Rightarrow> pyobject" where
  "instantiate cls = PyCategory cls (class_call cls)"

definition category_of :: "algebras_class \<Rightarrow> pyobject \<Rightarrow> pyobject list \<Rightarrow> construction_category" where
  "category_of cls category args =
     \<lparr>construction_name = functor_category_name cls,
      construction_base = category,
      construction_args = args\<rparr>"

definition Algebras :: "pyobject \<Rightarrow> pyobject \<Rightarrow> construction_category" where
  "Algebras self R = category_of AlgebrasCategory_class self [R]"

definition unique_classcall :: "algebras_class \<Rightarrow> pyobject \<Rightarrow> pyobject \<Rightarrow> construction_category" where
  "unique_classcall cls category R =
     \<lparr>construction_name = functor_category_name cls,
      construction_base = category,
      construction_args = [R]\<rparr>"

text \<open>
  \<^verbatim>\<open>
  def __classcall__(cls, category=None, R=None):
      base_category_class = cls._base_category_class[0]
      if isinstance(category, base_category_class):
          return super(FunctorialConstructionCategory, cls).__classcall__(cls, category, R)
      else:
          # category should now be the base ring ...
          return cls.category_of(base_category_class(), category)
  \<close>
\<close>

definition classcall :: "algebras_class \<Rightarrow> pyobject \<Rightarrow> pyobject \<Rightarrow> error + construction_category" where
  "classcall cls category R =
     (case base_category_class_tuple cls of
        [] \<Rightarrow> Inl IndexError
      | base_category_class # _ \<Rightarrow>
          if isinstance category base_category_class
          then Inr (unique_classcall cls category R)
          else Inr (category_of cls (instantiate base_category_class) [category]))"

section \<open>Auxiliary notions for the proofs\<close>

text \<open>
  The sum of the coefficients that a list of terms gives to one index, the value of a
  function of index and coefficient summed over a list of terms, the sum of the products
  of the coefficients of two lists of terms over the pairs of indices that an operation
  sends to one index, and additivity of a function of index and coefficient in the
  coefficient.
\<close>

definition total :: "('g \<times> 'c::monoid_add) list \<Rightarrow> 'g \<Rightarrow> 'c" where
  "total ts g = sum_list (map snd (filter (\<lambda>t. fst t = g) ts))"

definition evaluate :: "('g \<Rightarrow> 'c \<Rightarrow> 'v::comm_monoid_add) \<Rightarrow> ('g \<times> 'c) list \<Rightarrow> 'v" where
  "evaluate \<phi> ts = (\<Sum>t\<leftarrow>ts. \<phi> (fst t) (snd t))"

definition convolution ::
  "('g \<Rightarrow> 'g \<Rightarrow> 'g) \<Rightarrow> ('g \<times> 'c::semiring_0) list \<Rightarrow> ('g \<times> 'c) list \<Rightarrow> 'g \<Rightarrow> 'c" where
  "convolution m x y k =
     (\<Sum>t\<leftarrow>x. \<Sum>u\<leftarrow>y. if m (fst t) (fst u) = k then snd t * snd u else 0)"

definition additive :: "('g \<Rightarrow> 'c::monoid_add \<Rightarrow> 'v::comm_monoid_add) \<Rightarrow> bool" where
  "additive \<phi> = (\<forall>g. \<phi> g 0 = 0 \<and> (\<forall>a b. \<phi> g (a + b) = \<phi> g a + \<phi> g b))"

section \<open>Example objects\<close>

text \<open>
  The integers, the field with five elements, the semiring of natural numbers (not a
  ring), the cyclic group of order three written on \<open>{0, 1, 2}\<close>, the ring of integers
  modulo three as a structure with both operations, the algebra of the cyclic group
  over the integers, the class of the category of groups with the class of its algebras,
  and the reduction of the integers modulo five.
\<close>

definition ZZ :: parent where
  "ZZ = \<lparr>parent_name = ''Integer Ring'', parent_category = insert Commutative Rings\<rparr>"

definition GF5 :: parent where
  "GF5 = \<lparr>parent_name = ''Finite Field of size 5'',
           parent_category = insert Finite (insert Commutative Rings)\<rparr>"

definition NN :: parent where
  "NN = \<lparr>parent_name = ''Non negative integer semiring'',
          parent_category = Monoids \<union> AdditiveMonoids\<rparr>"

definition C3 :: "nat struct" where
  "C3 = \<lparr>parent_name = ''Cyclic group of order 3'', parent_category = insert Finite Groups,
          contains = (\<lambda>g. g < 3),
          times_op = Some (\<lambda>a b. (a + b) mod 3), plus_op = None,
          one_elt = Some 0, zero_elt = None\<rparr>"

definition Z3 :: "nat struct" where
  "Z3 = \<lparr>parent_name = ''Ring of integers modulo 3'',
          parent_category = insert Finite (insert Commutative Rings),
          contains = (\<lambda>g. g < 3),
          times_op = Some (\<lambda>a b. (a * b) mod 3), plus_op = Some (\<lambda>a b. (a + b) mod 3),
          one_elt = Some 1, zero_elt = Some 0\<rparr>"

definition ZC3 :: "nat algebra_parent" where
  "ZC3 = \<lparr>algebra_base_ring = ZZ, basis_keys = C3,
           algebra_category = \<lparr>base_category = parent_category C3, category_base_ring = ZZ\<rparr>\<rparr>"

definition Groups_class :: category_class where
  "Groups_class = \<lparr>class_name = ''Groups'', class_bases = [''CategoryWithAxiom_singleton''],
                    class_call = Groups\<rparr>"

definition GroupsAlgebras_class :: algebras_class where
  "GroupsAlgebras_class =
     \<lparr>base_category_class_tuple = [Groups_class], functor_category_name = ''Algebras''\<rparr>"

definition reduction_mod_5 :: "(int, 5) ring_morphism" where
  "reduction_mod_5 = \<lparr>morphism_domain = ZZ, morphism_codomain = GF5, morphism_map = of_int\<rparr>"

section \<open>Facts about categories and example objects\<close>

lemmas category_defs =
  in_category_def is_subcategory_def Sets_def Magmas_def Semigroups_def Monoids_def Groups_def
  AdditiveMagmas_def AdditiveSemigroups_def AdditiveMonoids_def AdditiveGroups_def
  CommutativeAdditiveGroups_def Rings_def

lemma ZZ_ring: "in_category ZZ Rings"
  by (simp add: ZZ_def category_defs)

lemma GF5_ring: "in_category GF5 Rings"
  by (simp add: GF5_def category_defs)

lemma NN_not_ring: "\<not> in_category NN Rings"
  by (simp add: NN_def category_defs)

lemma C3_group: "in_category C3 Groups"
  by (simp add: C3_def category_defs)

lemma C3_not_additive: "\<not> in_category C3 AdditiveSemigroups"
  by (simp add: C3_def category_defs)

lemma reduction_mod_5_morphism: "is_ring_morphism reduction_mod_5"
  by (simp add: is_ring_morphism_def reduction_mod_5_def ring_hom_def ZZ_ring GF5_ring)

section \<open>The constructor and its accessor\<close>

lemma AlgebraFunctor_init_ring:
  "in_category R Rings \<Longrightarrow> AlgebraFunctor_init R = Inr \<lparr>functor_base_ring = R\<rparr>"
  by (simp add: AlgebraFunctor_init_def)

lemma AlgebraFunctor_init_not_ring:
  "\<not> in_category R Rings \<Longrightarrow> AlgebraFunctor_init R = Inl AssertionError"
  by (simp add: AlgebraFunctor_init_def)

text \<open>
  C6: constructing \<^verbatim>\<open>AlgebraFunctor(base_ring)\<close> fails with an assertion error exactly
  for the arguments that are not in the category of rings; for a ring the constructor
  succeeds and \<^verbatim>\<open>base_ring()\<close> of the functor is the ring given at construction.
\<close>

theorem AlgebraFunctor_init_base_ring:
  "(\<not> in_category R Rings \<longrightarrow> AlgebraFunctor_init R = Inl AssertionError) \<and>
   (in_category R Rings \<longrightarrow>
      (\<exists>F. AlgebraFunctor_init R = Inr F \<and> AlgebraFunctor_base_ring F = R))"
  by (simp add: AlgebraFunctor_init_def AlgebraFunctor_base_ring_def)

theorem AlgebraFunctor_init_base_ring_witness:
  "(\<not> in_category NN Rings \<and> AlgebraFunctor_init NN = Inl AssertionError) \<and>
   (in_category ZZ Rings \<and> (\<exists>F. AlgebraFunctor_init ZZ = Inr F \<and> AlgebraFunctor_base_ring F = ZZ))"
  using AlgebraFunctor_init_base_ring[of NN] AlgebraFunctor_init_base_ring[of ZZ]
    NN_not_ring ZZ_ring by simp

section \<open>The two univariate functors\<close>

text \<open>
  C7: for every group \<open>G\<close> and every ring \<open>R\<close>, \<^verbatim>\<open>AlgebraFunctor(R)\<close> applied to \<open>G\<close>
  with no category argument and \<^verbatim>\<open>GroupAlgebraFunctor(G)\<close> applied to \<open>R\<close> give the same
  result, the result of \<^verbatim>\<open>G.algebra(R)\<close>.
\<close>

theorem functors_agree:
  assumes "in_category G Groups" and "in_category R Rings"
  shows "\<exists>F. AlgebraFunctor_init R = Inr F \<and>
           AlgebraFunctor_call F G None = algebra G R None \<and>
           GroupAlgebraFunctor_call (GroupAlgebraFunctor_init G) R = algebra G R None \<and>
           apply_functor (GroupAlgebraFunctor_init G) R = algebra G R None"
  using assms(2)
  by (simp add: AlgebraFunctor_init_def AlgebraFunctor_call_def GroupAlgebraFunctor_call_def
      GroupAlgebraFunctor_init_def apply_functor_def)

theorem functors_agree_witness:
  "in_category C3 Groups \<and> in_category ZZ Rings \<and>
   (\<exists>F A. AlgebraFunctor_init ZZ = Inr F \<and>
      AlgebraFunctor_call F C3 None = Inr A \<and>
      GroupAlgebraFunctor_call (GroupAlgebraFunctor_init C3) ZZ = Inr A \<and>
      basis_keys A = C3 \<and> algebra_base_ring A = ZZ)"
  using functors_agree[OF C3_group ZZ_ring] C3_group ZZ_ring C3_not_additive
  by (auto simp: algebra_def in_category_def)

section \<open>Free modules\<close>


subsection \<open>Dictionaries and sums of terms\<close>

lemma is_dict_add_term: "is_dict d \<Longrightarrow> is_dict (add_term d t)"
  by (simp add: is_dict_def add_term_def distinct_update split: option.splits)

lemma is_dict_foldl: "is_dict d \<Longrightarrow> is_dict (foldl add_term d ts)"
  by (induction ts arbitrary: d) (simp_all add: is_dict_add_term)

lemma is_dict_sum_of_terms: "is_dict (sum_of_terms ts)"
  unfolding sum_of_terms_def remove_zeros_def
  using is_dict_foldl[of "[]" ts] by (simp add: is_dict_def distinct_map_filter)

lemma is_element_sum_of_terms: "is_element (sum_of_terms ts)"
  using is_dict_sum_of_terms[of ts]
  by (simp add: is_element_def) (simp add: sum_of_terms_def remove_zeros_def list_all_iff)

lemma total_dict:
  fixes x :: "('g \<times> 'c::monoid_add) list"
  shows "is_dict x \<Longrightarrow> total x g = coefficient x g"
  unfolding is_dict_def total_def coefficient_def
  by (induction x)
     (auto split: option.splits simp: map_of_eq_None_iff rev_image_eqI
           intro!: arg_cong[where f=sum_list])

lemma total_evaluate: "total ts g = evaluate (\<lambda>k c. if k = g then c else 0) ts"
  unfolding total_def evaluate_def by (induction ts) auto

lemma evaluate_update:
  assumes "additive \<phi>"
  shows "map_of d k = None \<Longrightarrow> evaluate \<phi> (AList.update k v d) = evaluate \<phi> d + \<phi> k v"
    and "map_of d k = Some c \<Longrightarrow> evaluate \<phi> (AList.update k (c + v) d) = evaluate \<phi> d + \<phi> k v"
  using assms
  by (induction d) (auto simp: evaluate_def additive_def ac_simps split: if_splits)

lemma evaluate_add_term:
  "additive \<phi> \<Longrightarrow> evaluate \<phi> (add_term d t) = evaluate \<phi> d + \<phi> (fst t) (snd t)"
  by (simp add: add_term_def evaluate_update split: option.splits)

lemma evaluate_foldl:
  "additive \<phi> \<Longrightarrow> evaluate \<phi> (foldl add_term d ts) = evaluate \<phi> d + evaluate \<phi> ts"
proof (induction ts arbitrary: d)
  case Nil
  then show ?case by (simp add: evaluate_def)
next
  case (Cons t ts)
  then show ?case
    by (simp add: evaluate_add_term) (simp add: evaluate_def add.assoc)
qed

lemma evaluate_remove_zeros:
  "additive \<phi> \<Longrightarrow> evaluate \<phi> (remove_zeros d) = evaluate \<phi> d"
  by (induction d) (auto simp: evaluate_def remove_zeros_def additive_def)

lemma evaluate_sum_of_terms:
  "additive \<phi> \<Longrightarrow> evaluate \<phi> (sum_of_terms ts) = evaluate \<phi> ts"
  by (simp add: sum_of_terms_def evaluate_remove_zeros evaluate_foldl) (simp add: evaluate_def)

lemma additive_pick: "additive (\<lambda>k c. if k = g then c else (0::'c::comm_monoid_add))"
  by (simp add: additive_def)

lemma coefficient_sum_of_terms:
  fixes ts :: "('g \<times> 'c::comm_monoid_add) list"
  shows "coefficient (sum_of_terms ts) g = total ts g"
proof -
  have "coefficient (sum_of_terms ts) g = total (sum_of_terms ts) g"
    by (simp add: total_dict is_dict_sum_of_terms)
  also have "\<dots> = total ts g"
    by (simp add: total_evaluate evaluate_sum_of_terms additive_pick)
  finally show ?thesis .
qed

lemma foldl_add_term_dict:
  "distinct (map fst d @ map fst x) \<Longrightarrow> foldl add_term d x = d @ x"
proof (induction x arbitrary: d)
  case Nil
  then show ?case by simp
next
  case (Cons t x)
  have "map_of d (fst t) = None"
    using Cons.prems by (auto simp: map_of_eq_None_iff)
  moreover have "AList.update (fst t) (snd t) d = d @ [t]"
    using Cons.prems by (induction d) auto
  ultimately have "add_term d t = d @ [t]"
    by (simp add: add_term_def)
  then show ?case
    using Cons.IH[of "d @ [t]"] Cons.prems by simp
qed

lemma sum_of_terms_dict: "is_dict x \<Longrightarrow> sum_of_terms x = remove_zeros x"
  using foldl_add_term_dict[of "[]" x] by (simp add: sum_of_terms_def is_dict_def)

lemma sum_of_terms_element: "is_element x \<Longrightarrow> sum_of_terms x = x"
  by (simp add: sum_of_terms_dict is_element_def remove_zeros_def list_all_iff)

lemma keys_sum_of_terms:
  fixes ts :: "('g \<times> 'c::comm_monoid_add) list"
  shows "fst ` set (sum_of_terms ts) \<subseteq> fst ` set ts"
proof
  fix k assume "k \<in> fst ` set (sum_of_terms ts)"
  then obtain c where kc: "(k, c) \<in> set (sum_of_terms ts)" by auto
  have "is_element (sum_of_terms ts)" by (rule is_element_sum_of_terms)
  with kc have "c \<noteq> 0" and "map_of (sum_of_terms ts) k = Some c"
    by (auto simp: is_element_def is_dict_def list_all_iff)
  then have "coefficient (sum_of_terms ts) k \<noteq> 0"
    by (simp add: coefficient_def)
  then have "total ts k \<noteq> 0"
    by (simp add: coefficient_sum_of_terms)
  then have "filter (\<lambda>t. fst t = k) ts \<noteq> []"
    unfolding total_def by auto
  then show "k \<in> fst ` set ts"
    by (auto simp: filter_empty_conv)
qed

subsection \<open>The lifted map\<close>

lemma ring_hom_zero: "ring_hom h \<Longrightarrow> h 0 = 0"
proof -
  assume "ring_hom h"
  then have "h (0 + 0) = h 0 + h 0" unfolding ring_hom_def by blast
  then show "h 0 = 0" by simp
qed

lemma total_map_hom:
  assumes "h 0 = 0" and "\<And>a b. h (a + b) = h a + h b"
  shows "total (map (\<lambda>(g, c). (g, h c)) x) k = h (total x k)"
  using assms unfolding total_def by (induction x) (auto)

lemma coefficient_lift:
  fixes x :: "('g \<times> 'a::{ring,monoid_mult}) list" and h :: "'a \<Rightarrow> 'b::{ring,monoid_mult}"
  assumes "ring_hom h" and "is_dict x"
  shows "coefficient (sum_of_terms (map (\<lambda>(g, c). (g, h c)) x)) k = h (coefficient x k)"
proof -
  have "coefficient (sum_of_terms (map (\<lambda>(g, c). (g, h c)) x)) k = total (map (\<lambda>(g, c). (g, h c)) x) k"
    by (rule coefficient_sum_of_terms)
  also have "\<dots> = h (total x k)"
    using assms(1) by (intro total_map_hom) (auto simp: ring_hom_zero ring_hom_def)
  finally show ?thesis
    using assms(2) by (simp add: total_dict)
qed

lemma algebra_of_group:
  "in_category G Groups \<Longrightarrow> \<not> in_category G AdditiveSemigroups \<Longrightarrow>
   algebra G R None =
     Inr \<lparr>algebra_base_ring = R, basis_keys = G,
          algebra_category = \<lparr>base_category = parent_category G, category_base_ring = R\<rparr>\<rparr>"
  by (simp add: algebra_def in_category_def)

text \<open>
  C2: for every group \<open>G\<close> and every morphism of rings \<open>f\<close> from \<open>R\<close> to \<open>R'\<close>,
  \<^verbatim>\<open>GroupAlgebraFunctor(G)\<close> applied to \<open>f\<close> returns a morphism from the group algebra of
  \<open>G\<close> over \<open>R\<close> to the group algebra of \<open>G\<close> over \<open>R'\<close>, which sends the element with
  coefficient \<open>c\<close> on \<open>g\<close> to the element with coefficient \<open>f c\<close> on the same \<open>g\<close>.
  The group is a multiplicative one: a structure that is an additive semigroup as well has
  no algebra without a category argument.
\<close>

theorem apply_functor_to_morphism_coefficients:
  fixes f :: "('a::{ring,monoid_mult}, 'b::{ring,monoid_mult}) ring_morphism"
    and G :: "'c struct"
  assumes "in_category G Groups" and "\<not> in_category G AdditiveSemigroups"
    and "is_ring_morphism f"
  shows "\<exists>hh. apply_functor_to_morphism (GroupAlgebraFunctor_init G) f = Inr hh \<and>
           algebra G (morphism_domain f) None = Inr (hom_domain (morphism_parent hh)) \<and>
           algebra G (morphism_codomain f) None = Inr (hom_codomain (morphism_parent hh)) \<and>
           hom_category (morphism_parent hh) = Rings \<and>
           (\<forall>x. is_dict x \<longrightarrow>
              is_element (morphism_function hh x) \<and>
              fst ` set (morphism_function hh x) \<subseteq> fst ` set x \<and>
              (\<forall>g. coefficient (morphism_function hh x) g = morphism_map f (coefficient x g)))"
proof -
  let ?lift = "\<lambda>x. sum_of_terms (map (\<lambda>(g, c). (g, morphism_map f c)) x)"
  have dom: "in_category (morphism_domain f) Rings" and cod: "in_category (morphism_codomain f) Rings"
    and hom: "ring_hom (morphism_map f)"
    using assms(3) by (simp_all add: is_ring_morphism_def)
  obtain A where A: "algebra G (morphism_domain f) None = Inr A"
    using algebra_of_group[OF assms(1,2)] by blast
  obtain B where B: "algebra G (morphism_codomain f) None = Inr B"
    using algebra_of_group[OF assms(1,2)] by blast
  have call: "apply_functor_to_morphism (GroupAlgebraFunctor_init G) f =
      Inr \<lparr>morphism_parent = Hom A B Rings, morphism_function = ?lift\<rparr>"
    using dom cod A B
    by (simp add: apply_functor_to_morphism_def GroupAlgebraFunctor_call_def
        GroupAlgebraFunctor_init_def apply_functor_def)
  have elt: "is_element (?lift x)" for x :: "('c \<times> 'a) list"
    by (rule is_element_sum_of_terms)
  have keys: "fst ` set (?lift x) \<subseteq> fst ` set x" for x :: "('c \<times> 'a) list"
    using keys_sum_of_terms[of "map (\<lambda>(g, c). (g, morphism_map f c)) x"] by force
  have coeff: "coefficient (?lift x) g = morphism_map f (coefficient x g)" if "is_dict x"
    for x :: "('c \<times> 'a) list" and g
    using hom that by (rule coefficient_lift)
  show ?thesis
    using call A B elt keys coeff by (simp add: Hom_def)
qed

section \<open>Sums, products and linear combinations of elements\<close>



lemma total_append: "total (xs @ ys) k = total xs k + total ys k"
  by (simp add: total_def)

lemma total_Cons: "total (t # ts) k = (if fst t = k then snd t else 0) + total ts k"
  by (simp add: total_def)

lemma total_Nil: "total [] k = 0"
  by (simp add: total_def)

lemma coefficient_basis_term:
  fixes c :: "'c::comm_monoid_add"
  shows "coefficient (basis_term g c) k = (if g = k then c else 0)"
  by (simp add: basis_term_def coefficient_sum_of_terms total_Cons total_Nil)

lemma coefficient_monomial:
  "coefficient (monomial g :: ('g \<times> 'c::{comm_monoid_add,one}) list) k = (if g = k then 1 else 0)"
  by (simp add: monomial_def coefficient_basis_term)

lemma is_element_monomial: "is_element (monomial g)"
  by (simp add: monomial_def basis_term_def is_element_sum_of_terms)


lemma total_concat: "total (concat xss) k = (\<Sum>xs\<leftarrow>xss. total xs k)"
  by (induction xss) (simp_all add: total_Nil total_append)

lemma total_scale_terms:
  fixes a :: "'c::semiring_0"
  shows "total (scale_terms a v) k = a * total v k"
  by (induction v) (auto simp: scale_terms_def total_Cons total_Nil distrib_left)

lemma coefficient_linear_combination:
  fixes vs :: "(('g \<times> 'c::semiring_0) list \<times> 'c) list"
  shows "coefficient (linear_combination vs) k = (\<Sum>p\<leftarrow>vs. snd p * total (fst p) k)"
  by (simp add: linear_combination_def coefficient_sum_of_terms total_concat o_def
      case_prod_beta total_scale_terms)

lemma sum_list_concat_map: "sum_list (map F (concat xss)) = (\<Sum>xs\<leftarrow>xss. sum_list (map F xs))"
  by (induction xss) simp_all

lemma total_monomial:
  "total (monomial g :: ('g \<times> 'c::{semiring_0,one}) list) k = (if g = k then 1 else 0)"
proof -
  have "is_dict (monomial g :: ('g \<times> 'c) list)"
    using is_element_monomial[where 'b='c, of g] by (simp add: is_element_def)
  then have "total (monomial g :: ('g \<times> 'c) list) k = coefficient (monomial g :: ('g \<times> 'c) list) k"
    by (rule total_dict)
  then show ?thesis
    by (simp add: coefficient_monomial)
qed

lemma product_terms_inner:
  fixes y :: "('g \<times> 'c::{semiring_0,monoid_mult}) list"
  shows "(\<Sum>p\<leftarrow>map (\<lambda>(h, d). (monomial (m g h), c * d)) y. snd p * total (fst p) k)
       = (\<Sum>u\<leftarrow>y. if m g (fst u) = k then c * snd u else 0)"
  by (induction y) (auto simp: total_monomial)

lemma coefficient_product_terms:
  fixes x y :: "('g \<times> 'c::{semiring_0,monoid_mult}) list"
  shows "coefficient (product_from_product_on_basis (\<lambda>g h. monomial (m g h)) x y) k
         = convolution m x y k"
proof -
  have "(\<Sum>p\<leftarrow>concat (map (\<lambda>(g, c). map (\<lambda>(h, d). (monomial (m g h), c * d)) y) x).
            snd p * total (fst p) k) = convolution m x y k"
  proof (induction x)
    case Nil
    show ?case by (simp add: convolution_def)
  next
    case (Cons t x)
    obtain g c where t: "t = (g, c)" by (cases t)
    have "convolution m (t # x) y k =
        (\<Sum>u\<leftarrow>y. if m g (fst u) = k then c * snd u else 0) + convolution m x y k"
      by (simp add: convolution_def t cong: if_cong)
    then show ?case
      using Cons.IH by (simp add: t product_terms_inner del: map_map)
  qed
  then show ?thesis
    by (simp add: product_from_product_on_basis_def coefficient_linear_combination)
qed

lemma product_Some:
  "induced_operation A = Some m \<Longrightarrow>
   product A x y = Inr (product_from_product_on_basis (\<lambda>g h. monomial (m g h)) x y)"
  by (simp add: product_def)

lemma coefficient_product:
  fixes x y :: "('g \<times> 'c::{semiring_0,monoid_mult}) list"
  assumes "induced_operation A = Some m" and "product A x y = Inr p"
  shows "coefficient p k = convolution m x y k" and "is_element p"
proof -
  have p: "p = product_from_product_on_basis (\<lambda>g h. monomial (m g h)) x y"
    using assms by (simp add: product_Some)
  show "coefficient p k = convolution m x y k"
    unfolding p by (rule coefficient_product_terms)
  show "is_element p"
    unfolding p product_from_product_on_basis_def linear_combination_def
    by (rule is_element_sum_of_terms)
qed

lemma convolution_evaluate_left:
  "convolution m x y k = evaluate (\<lambda>g c. \<Sum>u\<leftarrow>y. if m g (fst u) = k then c * snd u else 0) x"
  by (simp add: convolution_def evaluate_def)

lemma convolution_evaluate_right:
  "convolution m x y k = (\<Sum>t\<leftarrow>x. evaluate (\<lambda>h d. if m (fst t) h = k then snd t * d else 0) y)"
  by (simp add: convolution_def evaluate_def)

lemma additive_left:
  fixes y :: "('g \<times> 'c::semiring_0) list"
  shows "additive (\<lambda>g c. \<Sum>u\<leftarrow>y. if m g (fst u) = k then c * snd u else 0)"
  unfolding additive_def
proof (intro allI conjI)
  fix g and a b :: 'c
  show "(\<Sum>u\<leftarrow>y. if m g (fst u) = k then 0 * snd u else 0) = 0"
    by (induction y) auto
  show "(\<Sum>u\<leftarrow>y. if m g (fst u) = k then (a + b) * snd u else 0) =
        (\<Sum>u\<leftarrow>y. if m g (fst u) = k then a * snd u else 0) +
        (\<Sum>u\<leftarrow>y. if m g (fst u) = k then b * snd u else 0)"
    by (induction y) (auto simp: distrib_right ac_simps)
qed

lemma additive_right:
  fixes c :: "'c::semiring_0"
  shows "additive (\<lambda>h d. if m g h = k then c * d else 0)"
  by (simp add: additive_def distrib_left)

lemma convolution_sum_of_terms_left:
  "convolution m (sum_of_terms x) y k = convolution m x y k"
  by (simp add: convolution_evaluate_left evaluate_sum_of_terms additive_left)

lemma convolution_sum_of_terms_right:
  "convolution m x (sum_of_terms y) k = convolution m x y k"
  by (simp add: convolution_evaluate_right evaluate_sum_of_terms additive_right)

lemma convolution_append_left:
  "convolution m (x @ x') y k = convolution m x y k + convolution m x' y k"
  by (simp add: convolution_def)

lemma convolution_append_right:
  "convolution m x (y @ y') k = convolution m x y k + convolution m x y' k"
  by (induction x) (simp_all add: convolution_def ac_simps)

lemma convolution_scale_left:
  "convolution m (scale_terms a x) y k = a * convolution m x y k"
proof (induction x)
  case Nil
  show ?case by (simp add: convolution_def scale_terms_def)
next
  case (Cons t x)
  have inner: "(\<Sum>u\<leftarrow>y. if m g (fst u) = k then (a * c) * snd u else 0)
      = a * (\<Sum>u\<leftarrow>y. if m g (fst u) = k then c * snd u else 0)" for g c
    by (induction y) (auto simp: distrib_left mult.assoc)
  obtain g c where t: "t = (g, c)" by (cases t)
  have step: "convolution m (u # z) y k =
      (\<Sum>v\<leftarrow>y. if m (fst u) (fst v) = k then snd u * snd v else 0) + convolution m z y k" for u z
    by (simp add: convolution_def)
  have "convolution m (scale_terms a (t # x)) y k
      = (\<Sum>v\<leftarrow>y. if m g (fst v) = k then (a * c) * snd v else 0) + convolution m (scale_terms a x) y k"
    unfolding t scale_terms_def by (simp add: step cong: if_cong)
  also have "\<dots> = a * (\<Sum>v\<leftarrow>y. if m g (fst v) = k then c * snd v else 0) + a * convolution m x y k"
    unfolding inner Cons.IH ..
  also have "\<dots> = a * convolution m (t # x) y k"
    unfolding t by (simp add: step distrib_left cong: if_cong)
  finally show ?case .
qed

section \<open>The lifted morphism on concrete objects\<close>

lemma example_element_dict: "is_dict [(0::nat, 2::int), (1, 6), (2, 5)]"
  by (simp add: is_dict_def)

lemma algebra_base_ring_result: "algebra S R c = Inr A \<Longrightarrow> algebra_base_ring A = R"
  by (auto simp: algebra_def Let_def split: if_splits)

theorem apply_functor_to_morphism_coefficients_witness:
  "in_category C3 Groups \<and> \<not> in_category C3 AdditiveSemigroups \<and>
   is_ring_morphism reduction_mod_5 \<and> is_dict [(0::nat, 2::int), (1, 6), (2, 5)] \<and>
   (\<exists>hh. apply_functor_to_morphism (GroupAlgebraFunctor_init C3) reduction_mod_5 = Inr hh \<and>
      algebra_base_ring (hom_domain (morphism_parent hh)) = ZZ \<and>
      algebra_base_ring (hom_codomain (morphism_parent hh)) = GF5 \<and>
      coefficient (morphism_function hh [(0, 2), (1, 6), (2, 5)]) 1 = 1 \<and>
      coefficient (morphism_function hh [(0, 2), (1, 6), (2, 5)]) 2 = 0)"
proof -
  let ?a = "[(0::nat, 2::int), (1, 6), (2, 5)]"
  from apply_functor_to_morphism_coefficients[OF C3_group C3_not_additive reduction_mod_5_morphism]
  obtain hh where H: "apply_functor_to_morphism (GroupAlgebraFunctor_init C3) reduction_mod_5 = Inr hh \<and>
           algebra C3 (morphism_domain reduction_mod_5) None = Inr (hom_domain (morphism_parent hh)) \<and>
           algebra C3 (morphism_codomain reduction_mod_5) None = Inr (hom_codomain (morphism_parent hh)) \<and>
           hom_category (morphism_parent hh) = Rings \<and>
           (\<forall>x. is_dict x \<longrightarrow>
              is_element (morphism_function hh x) \<and>
              fst ` set (morphism_function hh x) \<subseteq> fst ` set x \<and>
              (\<forall>g. coefficient (morphism_function hh x) g = morphism_map reduction_mod_5 (coefficient x g)))"
    ..
  note hh = H[THEN conjunct1]
  note dom = H[THEN conjunct2, THEN conjunct1]
  note cod = H[THEN conjunct2, THEN conjunct2, THEN conjunct1]
  note all = H[THEN conjunct2, THEN conjunct2, THEN conjunct2, THEN conjunct2]
  note co = all[rule_format, OF example_element_dict, THEN conjunct2, THEN conjunct2, rule_format]
  have c1: "coefficient (morphism_function hh ?a) 1 = 1"
    unfolding co by (simp add: reduction_mod_5_def coefficient_def)
  have c2: "coefficient (morphism_function hh ?a) 2 = 0"
    unfolding co by (simp add: reduction_mod_5_def coefficient_def)
  have b1: "algebra_base_ring (hom_domain (morphism_parent hh)) = ZZ"
    using algebra_base_ring_result[OF dom] by (simp add: reduction_mod_5_def)
  have b2: "algebra_base_ring (hom_codomain (morphism_parent hh)) = GF5"
    using algebra_base_ring_result[OF cod] by (simp add: reduction_mod_5_def)
  show ?thesis
    apply (intro conjI exI[of _ hh])
    apply (rule C3_group C3_not_additive reduction_mod_5_morphism example_element_dict hh b1 b2 c1 c2)+
    done
qed

section \<open>Products of basis elements\<close>

lemma sum_of_terms_single:
  "sum_of_terms [(g, c)] = (if c = 0 then [] else [(g, c)])"
  by (simp add: sum_of_terms_def add_term_def remove_zeros_def)

lemma monomial_eq:
  "(monomial g :: ('g \<times> 'c::{zero,plus,one}) list) = (if (1::'c) = 0 then [] else [(g, 1)])"
  by (simp add: monomial_def basis_term_def sum_of_terms_single)

lemma sum_of_terms_Nil: "sum_of_terms [] = []"
  by (simp add: sum_of_terms_def remove_zeros_def)

lemma product_monomials:
  fixes g h :: 'g
  assumes "induced_operation A = Some m"
  shows "product A (monomial g) (monomial h) =
           Inr (monomial (m g h) :: ('g \<times> 'c::{semiring_0,monoid_mult}) list)"
proof (cases "(1::'c) = 0")
  case True
  then show ?thesis
    using assms
    by (simp add: product_Some monomial_eq product_from_product_on_basis_def
        linear_combination_def sum_of_terms_Nil)
next
  case False
  then show ?thesis
    using assms
    by (simp add: product_Some monomial_eq product_from_product_on_basis_def
        linear_combination_def scale_terms_def sum_of_terms_single)
qed

lemma zero_ring_element:
  fixes x :: "('g \<times> 'c::{semiring_0,monoid_mult}) list"
  assumes "(1::'c) = 0" and "is_element x"
  shows "x = []"
proof (cases x)
  case Nil
  then show ?thesis .
next
  case (Cons t ts)
  have "snd t = snd t * 1" by simp
  also have "\<dots> = 0" unfolding assms(1) by simp
  finally show ?thesis
    using assms(2) Cons by (simp add: is_element_def)
qed

lemma element_spanned:
  fixes x :: "('g \<times> 'c::{semiring_0,monoid_mult}) list"
  assumes "is_element x"
  shows "linear_combination (map (\<lambda>(g, c). (monomial g, c)) x) = x"
proof (cases "(1::'c) = 0")
  case True
  then have "x = []" using assms by (rule zero_ring_element)
  then show ?thesis
    by (simp add: linear_combination_def sum_of_terms_Nil)
next
  case False
  have "concat (map (\<lambda>(v, a). scale_terms a v) (map (\<lambda>(g, c). (monomial g, c)) x)) = x"
    using False by (induction x) (auto simp: monomial_eq scale_terms_def)
  then show ?thesis
    using assms by (simp add: linear_combination_def sum_of_terms_element)
qed

subsection \<open>The lifted map is a homomorphism\<close>







lemma lift_identity:
  "is_element x \<Longrightarrow> sum_of_terms (map (\<lambda>(g, c). (g, c)) x) = x"
  by (simp add: sum_of_terms_element)





section \<open>Functoriality of the lifting\<close>




lemma induced_operation_multiplicative:
  assumes "Magma \<in> C" and "AdditiveMagma \<notin> C"
  shows "induced_operation \<lparr>algebra_base_ring = R, basis_keys = S,
            algebra_category = \<lparr>base_category = C, category_base_ring = R\<rparr>\<rparr> = times_op S"
  using assms by (simp add: induced_operation_def)

lemma induced_operation_additive:
  assumes "AdditiveMagma \<in> C" and "Magma \<notin> C"
  shows "induced_operation \<lparr>algebra_base_ring = R, basis_keys = S,
            algebra_category = \<lparr>base_category = C, category_base_ring = R\<rparr>\<rparr> = plus_op S"
  using assms by (auto simp add: induced_operation_def)







section \<open>The algebra as a free module with the induced product\<close>

lemma convolution_element_add_left:
  "convolution m (element_add x x') y k = convolution m x y k + convolution m x' y k"
  by (simp add: element_add_def convolution_sum_of_terms_left convolution_append_left)

lemma convolution_element_add_right:
  "convolution m x (element_add y y') k = convolution m x y k + convolution m x y' k"
  by (simp add: element_add_def convolution_sum_of_terms_right convolution_append_right)

lemma convolution_scalar_mult_left:
  "convolution m (scalar_mult a x) y k = a * convolution m x y k"
  by (simp add: scalar_mult_def convolution_sum_of_terms_left convolution_scale_left)

lemma algebra_selected:
  assumes "\<not> (Magma \<in> selected_category S cat_arg \<and> AdditiveMagma \<in> selected_category S cat_arg)"
  shows "algebra S R cat_arg =
     Inr \<lparr>algebra_base_ring = R, basis_keys = S,
          algebra_category =
            \<lparr>base_category = selected_category S cat_arg, category_base_ring = R\<rparr>\<rparr>"
  using assms by (auto simp: algebra_def selected_category_def category_defs split: option.splits)

lemma keys_scale_terms: "fst ` set (scale_terms a v) = fst ` set v"
  by (force simp: scale_terms_def)

lemma keys_monomial: "fst ` set (monomial g) \<subseteq> {g}"
  by (simp add: monomial_eq)

lemma keys_linear_combination:
  fixes vs :: "(('g \<times> 'c::semiring_0) list \<times> 'c) list"
  assumes "k \<in> fst ` set (linear_combination vs)"
  shows "\<exists>p\<in>set vs. k \<in> fst ` set (fst p)"
proof -
  have "fst ` set (linear_combination vs)
      \<subseteq> fst ` set (concat (map (\<lambda>(v, a). scale_terms a v) vs))"
    unfolding linear_combination_def by (rule keys_sum_of_terms)
  with assms have "k \<in> fst ` set (concat (map (\<lambda>(v, a). scale_terms a v) vs))"
    by (rule rev_subsetD)
  then obtain t where t: "t \<in> set (concat (map (\<lambda>(v, a). scale_terms a v) vs))"
    and kt: "k = fst t"
    by (rule imageE)
  from t obtain p where p: "p \<in> set vs" and tp: "t \<in> set (scale_terms (snd p) (fst p))"
    by (auto simp: case_prod_beta)
  have "k \<in> fst ` set (scale_terms (snd p) (fst p))"
    unfolding kt using tp by (rule imageI)
  then have "k \<in> fst ` set (fst p)"
    by (simp only: keys_scale_terms)
  with p show ?thesis by (rule bexI[rotated])
qed

lemma product_terms_origin:
  assumes "p \<in> set (concat (map (\<lambda>(g, c). map (\<lambda>(h, d). (F g h, c * d)) y) x))"
  shows "\<exists>g h. g \<in> fst ` set x \<and> h \<in> fst ` set y \<and> fst p = F g h"
  using assms
proof (induction x)
  case Nil
  then show ?case by simp
next
  case (Cons t x)
  obtain g c where t: "t = (g, c)" by (cases t)
  from Cons.prems have "p \<in> set (map (\<lambda>(h, d). (F g h, c * d)) y) \<or>
      p \<in> set (concat (map (\<lambda>(g, c). map (\<lambda>(h, d). (F g h, c * d)) y) x))"
    unfolding t by simp
  then show ?case
  proof
    assume "p \<in> set (map (\<lambda>(h, d). (F g h, c * d)) y)"
    then obtain u where u: "u \<in> set y" and pu: "p = (F g (fst u), c * snd u)"
      by (auto simp: case_prod_beta)
    have "g \<in> fst ` set (t # x)" unfolding t by simp
    moreover have "fst u \<in> fst ` set y" using u by simp
    moreover have "fst p = F g (fst u)" using pu by simp
    ultimately show ?thesis by blast
  next
    assume "p \<in> set (concat (map (\<lambda>(g, c). map (\<lambda>(h, d). (F g h, c * d)) y) x))"
    then obtain g' h' where "g' \<in> fst ` set x" "h' \<in> fst ` set y" "fst p = F g' h'"
      using Cons.IH by blast
    then have "g' \<in> fst ` set (t # x) \<and> h' \<in> fst ` set y \<and> fst p = F g' h'"
      by simp
    then show ?thesis by blast
  qed
qed

lemma keys_product:
  fixes x y :: "('g \<times> 'c::{semiring_0,monoid_mult}) list"
  assumes k: "k \<in> fst ` set (product_from_product_on_basis (\<lambda>g h. monomial (m g h)) x y)"
  shows "\<exists>g h. g \<in> fst ` set x \<and> h \<in> fst ` set y \<and> k = m g h"
proof -
  let ?vs = "concat (map (\<lambda>(g, c). map (\<lambda>(h, d). (monomial (m g h) :: ('g \<times> 'c) list, c * d)) y) x)"
  from k have "\<exists>p\<in>set ?vs. k \<in> fst ` set (fst p)"
    unfolding product_from_product_on_basis_def by (rule keys_linear_combination)
  then obtain p where p: "p \<in> set ?vs" and kp: "k \<in> fst ` set (fst p)"
    by (rule bexE)
  from product_terms_origin[OF p]
  obtain g h where g: "g \<in> fst ` set x" and h: "h \<in> fst ` set y"
    and fp: "fst p = monomial (m g h)"
    by (elim exE conjE)
  from kp have "k \<in> {m g h}"
    unfolding fp using keys_monomial[of "m g h"] by (rule rev_subsetD)
  then have "k = m g h" by simp
  with g h show ?thesis by (intro exI conjI)
qed

lemma element_determined_by_coefficients:
  fixes x y :: "('g \<times> 'c::zero) list"
  assumes "is_element x" and "is_element y" and "\<forall>k. coefficient x k = coefficient y k"
  shows "set x = set y"
proof -
  have sub: "set u \<subseteq> set v"
    if u: "is_element u" and v: "is_element v" and eq: "\<forall>k. coefficient u k = coefficient v k"
    for u v :: "('g \<times> 'c) list"
  proof
    fix t assume t: "t \<in> set u"
    obtain g c where gc: "t = (g, c)" by (cases t)
    have "map_of u g = Some c" and "c \<noteq> 0"
      using t u gc by (auto simp: is_element_def is_dict_def list_all_iff)
    then have "coefficient u g = c" and "c \<noteq> 0"
      by (simp_all add: coefficient_def)
    then have "coefficient v g = c" and "c \<noteq> 0"
      using eq by auto
    then have "map_of v g = Some c"
      by (auto simp: coefficient_def split: option.splits)
    then show "t \<in> set v"
      using gc by (auto dest: map_of_SomeD)
  qed
  show ?thesis
    using sub[OF assms(1,2,3)] sub[OF assms(2,1)] assms(3) by auto
qed

lemma algebra_element_monomial:
  fixes A :: "'g algebra_parent"
  assumes "contains (basis_keys A) g"
  shows "algebra_element A (monomial g :: ('g \<times> 'c::{zero,plus,one}) list)"
proof (cases "(1::'c) = 0")
  case True
  then show ?thesis
    by (simp add: algebra_element_def is_element_def is_dict_def monomial_eq)
next
  case False
  then show ?thesis
    using assms by (simp add: algebra_element_def is_element_def is_dict_def monomial_eq)
qed

lemma algebra_element_keys:
  "algebra_element A x \<Longrightarrow> g \<in> fst ` set x \<Longrightarrow> contains (basis_keys A) g"
  by (auto simp: algebra_element_def list_all_iff)

lemma algebra_element_product:
  fixes x y :: "('g \<times> 'c::{semiring_0,monoid_mult}) list"
  assumes x: "algebra_element A x" and y: "algebra_element A y"
    and closed: "\<forall>g h. contains (basis_keys A) g \<and> contains (basis_keys A) h
                   \<longrightarrow> contains (basis_keys A) (m g h)"
  shows "algebra_element A (product_from_product_on_basis (\<lambda>g h. monomial (m g h)) x y)"
proof -
  let ?p = "product_from_product_on_basis (\<lambda>g h. monomial (m g h)) x y"
  have e: "is_element ?p"
    unfolding product_from_product_on_basis_def linear_combination_def
    by (rule is_element_sum_of_terms)
  have "contains (basis_keys A) (fst t)" if t: "t \<in> set ?p" for t
  proof -
    from t have "fst t \<in> fst ` set ?p" by (rule imageI)
    from keys_product[OF this]
    obtain g h where g: "g \<in> fst ` set x" and h: "h \<in> fst ` set y" and k: "fst t = m g h"
      by (elim exE conjE)
    have "contains (basis_keys A) g" using x g by (rule algebra_element_keys)
    moreover have "contains (basis_keys A) h" using y h by (rule algebra_element_keys)
    ultimately have "contains (basis_keys A) (m g h)"
      using closed by simp
    then show ?thesis unfolding k .
  qed
  then have "list_all (\<lambda>t. contains (basis_keys A) (fst t)) ?p"
    by (simp add: list_all_iff)
  with e show ?thesis
    unfolding algebra_element_def by (rule conjI)
qed

text \<open>
  C3: for every ring \<open>R\<close> and every structure \<open>S\<close> whose category, or the category
  argument, is a category of multiplicative or of additive magmas, the algebra that
  \<^verbatim>\<open>AlgebraFunctor(R)\<close> constructs for \<open>S\<close> (and, with no category argument, the one that
  \<^verbatim>\<open>GroupAlgebraFunctor(S)\<close> constructs for \<open>R\<close>) is the free module over \<open>R\<close> with basis
  indexed by the elements of \<open>S\<close>: the basis elements are elements of it, every element is
  the linear combination of basis elements with its coefficients, and its coefficients
  determine it. The product of the basis elements indexed by \<open>g\<close> and \<open>h\<close> is the basis
  element indexed by the result of the operation of \<open>S\<close> on \<open>g\<close> and \<open>h\<close>, and the product of
  two elements is the bilinear extension: an element of the algebra whose coefficient on
  \<open>k\<close> sums the products of coefficients over the pairs of indices sent to \<open>k\<close>, additive in
  each argument and compatible with scalars.
\<close>

theorem functor_constructs_algebra_with_induced_product:
  fixes S :: "'g struct" and m :: "'g \<Rightarrow> 'g \<Rightarrow> 'g"
  assumes ring: "in_category R Rings"
    and sel: "(Magma \<in> selected_category S cat_arg \<and> AdditiveMagma \<notin> selected_category S cat_arg \<and>
               times_op S = Some m) \<or>
              (AdditiveMagma \<in> selected_category S cat_arg \<and> Magma \<notin> selected_category S cat_arg \<and>
               plus_op S = Some m)"
    and closed: "\<forall>g h. contains S g \<and> contains S h \<longrightarrow> contains S (m g h)"
  shows "\<exists>F A. AlgebraFunctor_init R = Inr F \<and> AlgebraFunctor_call F S cat_arg = Inr A \<and>
     (cat_arg = None \<longrightarrow>
        apply_functor (GroupAlgebraFunctor_init S) R = Inr A \<and>
        GroupAlgebraFunctor_call (GroupAlgebraFunctor_init S) R = Inr A) \<and>
     basis_keys A = S \<and> algebra_base_ring A = R \<and>
     (\<forall>g. contains S g \<longrightarrow>
        algebra_element A (monomial g :: ('g \<times> 'c::{ring,monoid_mult}) list) \<and>
        (\<forall>k. coefficient (monomial g :: ('g \<times> 'c) list) k = (if g = k then 1 else 0))) \<and>
     (\<forall>x :: ('g \<times> 'c) list. algebra_element A x \<longrightarrow>
        linear_combination (map (\<lambda>(g, c). (monomial g, c)) x) = x) \<and>
     (\<forall>(x :: ('g \<times> 'c) list) y.
        algebra_element A x \<and> algebra_element A y \<and> (\<forall>k. coefficient x k = coefficient y k)
        \<longrightarrow> set x = set y) \<and>
     (\<forall>g h. contains S g \<and> contains S h \<longrightarrow>
        contains S (m g h) \<and>
        product A (monomial g) (monomial h) = Inr (monomial (m g h) :: ('g \<times> 'c) list)) \<and>
     (\<forall>(x :: ('g \<times> 'c) list) y. algebra_element A x \<and> algebra_element A y \<longrightarrow>
        (\<exists>p. product A x y = Inr p \<and> algebra_element A p \<and>
           (\<forall>k. coefficient p k = convolution m x y k))) \<and>
     (\<forall>(x :: ('g \<times> 'c) list) x' y. \<exists>p q q'.
        product A (element_add x x') y = Inr p \<and> product A x y = Inr q \<and>
        product A x' y = Inr q' \<and> (\<forall>k. coefficient p k = coefficient q k + coefficient q' k)) \<and>
     (\<forall>(x :: ('g \<times> 'c) list) y y'. \<exists>p q q'.
        product A x (element_add y y') = Inr p \<and> product A x y = Inr q \<and>
        product A x y' = Inr q' \<and> (\<forall>k. coefficient p k = coefficient q k + coefficient q' k)) \<and>
     (\<forall>a (x :: ('g \<times> 'c) list) y. \<exists>p q.
        product A (scalar_mult a x) y = Inr p \<and> product A x y = Inr q \<and>
        (\<forall>k. coefficient p k = a * coefficient q k))"
proof -
  let ?C = "selected_category S cat_arg"
  let ?F = "\<lparr>functor_base_ring = R\<rparr>"
  let ?A = "\<lparr>algebra_base_ring = R, basis_keys = S,
          algebra_category = \<lparr>base_category = ?C, category_base_ring = R\<rparr>\<rparr>"
  let ?P = "\<lambda>(x :: ('g \<times> 'c) list) y.
      product_from_product_on_basis (\<lambda>g h. monomial (m g h)) x y"
  have i: "AlgebraFunctor_init R = Inr ?F"
    using ring by (rule AlgebraFunctor_init_ring)
  have nb: "\<not> (Magma \<in> ?C \<and> AdditiveMagma \<in> ?C)"
    using sel by auto
  have alg: "algebra S R cat_arg = Inr ?A"
    using nb by (rule algebra_selected)
  have a: "AlgebraFunctor_call ?F S cat_arg = Inr ?A"
    using alg by (simp add: AlgebraFunctor_call_def)
  have g: "cat_arg = None \<longrightarrow>
        apply_functor (GroupAlgebraFunctor_init S) R = Inr ?A \<and>
        GroupAlgebraFunctor_call (GroupAlgebraFunctor_init S) R = Inr ?A"
  proof
    assume n: "cat_arg = None"
    have "algebra S R None = Inr ?A"
      using alg unfolding n .
    then show "apply_functor (GroupAlgebraFunctor_init S) R = Inr ?A \<and>
        GroupAlgebraFunctor_call (GroupAlgebraFunctor_init S) R = Inr ?A"
      using ring
      by (simp add: apply_functor_def GroupAlgebraFunctor_call_def GroupAlgebraFunctor_init_def)
  qed
  have k: "basis_keys ?A = S" and r: "algebra_base_ring ?A = R"
    by simp_all
  have op: "induced_operation ?A = Some m"
    using sel by (auto simp: induced_operation_multiplicative induced_operation_additive)
  have prod: "product ?A x y = Inr (?P x y)" for x y
    using op by (simp add: product_Some)
  have closed': "\<forall>g h. contains (basis_keys ?A) g \<and> contains (basis_keys ?A) h
                   \<longrightarrow> contains (basis_keys ?A) (m g h)"
    using closed by simp
  have b1: "\<forall>g. contains S g \<longrightarrow>
        algebra_element ?A (monomial g :: ('g \<times> 'c) list) \<and>
        (\<forall>k. coefficient (monomial g :: ('g \<times> 'c) list) k = (if g = k then 1 else 0))"
  proof (intro allI impI conjI)
    fix g k assume "contains S g"
    then have "contains (basis_keys ?A) g" by simp
    then show "algebra_element ?A (monomial g :: ('g \<times> 'c) list)"
      by (rule algebra_element_monomial)
    show "coefficient (monomial g :: ('g \<times> 'c) list) k = (if g = k then 1 else 0)"
      by (rule coefficient_monomial)
  qed
  have b2: "\<forall>x :: ('g \<times> 'c) list. algebra_element ?A x \<longrightarrow>
        linear_combination (map (\<lambda>(g, c). (monomial g, c)) x) = x"
    by (simp add: algebra_element_def element_spanned)
  have b3: "\<forall>(x :: ('g \<times> 'c) list) y.
        algebra_element ?A x \<and> algebra_element ?A y \<and> (\<forall>k. coefficient x k = coefficient y k)
        \<longrightarrow> set x = set y"
  proof (intro allI impI)
    fix x y :: "('g \<times> 'c) list"
    assume h: "algebra_element ?A x \<and> algebra_element ?A y \<and>
        (\<forall>k. coefficient x k = coefficient y k)"
    then have "is_element x" and "is_element y" and "\<forall>k. coefficient x k = coefficient y k"
      unfolding algebra_element_def by simp_all
    then show "set x = set y"
      by (rule element_determined_by_coefficients)
  qed
  have b4: "\<forall>g h. contains S g \<and> contains S h \<longrightarrow>
        contains S (m g h) \<and>
        product ?A (monomial g) (monomial h) = Inr (monomial (m g h) :: ('g \<times> 'c) list)"
  proof (intro allI impI conjI)
    fix g h assume gh: "contains S g \<and> contains S h"
    then show "contains S (m g h)"
      using closed by simp
    show "product ?A (monomial g) (monomial h) = Inr (monomial (m g h) :: ('g \<times> 'c) list)"
      using op by (rule product_monomials)
  qed
  have b5: "\<forall>(x :: ('g \<times> 'c) list) y. algebra_element ?A x \<and> algebra_element ?A y \<longrightarrow>
        (\<exists>p. product ?A x y = Inr p \<and> algebra_element ?A p \<and>
           (\<forall>k. coefficient p k = convolution m x y k))"
  proof (intro allI impI)
    fix x y :: "('g \<times> 'c) list"
    assume xy: "algebra_element ?A x \<and> algebra_element ?A y"
    have e: "algebra_element ?A (?P x y)"
      using xy[THEN conjunct1] xy[THEN conjunct2] closed' by (rule algebra_element_product)
    have c: "\<forall>k. coefficient (?P x y) k = convolution m x y k"
      by (simp add: coefficient_product_terms)
    show "\<exists>p. product ?A x y = Inr p \<and> algebra_element ?A p \<and>
           (\<forall>k. coefficient p k = convolution m x y k)"
      using prod[of x y] e c by (intro exI[of _ "?P x y"] conjI)
  qed
  have b6: "\<forall>(x :: ('g \<times> 'c) list) x' y. \<exists>p q q'.
        product ?A (element_add x x') y = Inr p \<and> product ?A x y = Inr q \<and>
        product ?A x' y = Inr q' \<and> (\<forall>k. coefficient p k = coefficient q k + coefficient q' k)"
  proof (intro allI)
    fix x x' y :: "('g \<times> 'c) list"
    have c: "\<forall>k. coefficient (?P (element_add x x') y) k
        = coefficient (?P x y) k + coefficient (?P x' y) k"
      by (simp add: coefficient_product_terms convolution_element_add_left)
    show "\<exists>p q q'.
        product ?A (element_add x x') y = Inr p \<and> product ?A x y = Inr q \<and>
        product ?A x' y = Inr q' \<and> (\<forall>k. coefficient p k = coefficient q k + coefficient q' k)"
      using prod[of "element_add x x'" y] prod[of x y] prod[of x' y] c
      by (intro exI[of _ "?P (element_add x x') y"] exI[of _ "?P x y"] exI[of _ "?P x' y"] conjI)
  qed
  have b7: "\<forall>(x :: ('g \<times> 'c) list) y y'. \<exists>p q q'.
        product ?A x (element_add y y') = Inr p \<and> product ?A x y = Inr q \<and>
        product ?A x y' = Inr q' \<and> (\<forall>k. coefficient p k = coefficient q k + coefficient q' k)"
  proof (intro allI)
    fix x y y' :: "('g \<times> 'c) list"
    have c: "\<forall>k. coefficient (?P x (element_add y y')) k
        = coefficient (?P x y) k + coefficient (?P x y') k"
      by (simp add: coefficient_product_terms convolution_element_add_right)
    show "\<exists>p q q'.
        product ?A x (element_add y y') = Inr p \<and> product ?A x y = Inr q \<and>
        product ?A x y' = Inr q' \<and> (\<forall>k. coefficient p k = coefficient q k + coefficient q' k)"
      using prod[of x "element_add y y'"] prod[of x y] prod[of x y'] c
      by (intro exI[of _ "?P x (element_add y y')"] exI[of _ "?P x y"] exI[of _ "?P x y'"] conjI)
  qed
  have b8: "\<forall>a (x :: ('g \<times> 'c) list) y. \<exists>p q.
        product ?A (scalar_mult a x) y = Inr p \<and> product ?A x y = Inr q \<and>
        (\<forall>k. coefficient p k = a * coefficient q k)"
  proof (intro allI)
    fix a :: 'c and x y :: "('g \<times> 'c) list"
    have c: "\<forall>k. coefficient (?P (scalar_mult a x) y) k = a * coefficient (?P x y) k"
      by (simp add: coefficient_product_terms convolution_scalar_mult_left)
    show "\<exists>p q.
        product ?A (scalar_mult a x) y = Inr p \<and> product ?A x y = Inr q \<and>
        (\<forall>k. coefficient p k = a * coefficient q k)"
      using prod[of "scalar_mult a x" y] prod[of x y] c
      by (intro exI[of _ "?P (scalar_mult a x) y"] exI[of _ "?P x y"] conjI)
  qed
  show ?thesis
    apply (rule exI[of _ ?F], rule exI[of _ ?A])
    apply (intro conjI)
    apply (rule i a g k r b1 b2 b3 b4 b5 b6 b7 b8)+
    done
qed

lemma C3_selected:
  "Magma \<in> selected_category C3 None \<and> AdditiveMagma \<notin> selected_category C3 None \<and>
   times_op C3 = Some (\<lambda>a b. (a + b) mod 3)"
  by (simp add: selected_category_def C3_def Groups_def)

lemma C3_closed: "\<forall>g h. contains C3 g \<and> contains C3 h \<longrightarrow> contains C3 ((g + h) mod 3)"
  by (simp add: C3_def)

lemma Z3_selected_monoid:
  "Magma \<in> selected_category Z3 (Some Monoids) \<and>
   AdditiveMagma \<notin> selected_category Z3 (Some Monoids) \<and>
   times_op Z3 = Some (\<lambda>a b. (a * b) mod 3)"
  by (simp add: selected_category_def Z3_def Monoids_def)

lemma Z3_closed_times: "\<forall>g h. contains Z3 g \<and> contains Z3 h \<longrightarrow> contains Z3 ((g * h) mod 3)"
  by (simp add: Z3_def)

lemma Z3_selected_additive:
  "AdditiveMagma \<in> selected_category Z3 (Some CommutativeAdditiveGroups) \<and>
   Magma \<notin> selected_category Z3 (Some CommutativeAdditiveGroups) \<and>
   plus_op Z3 = Some (\<lambda>a b. (a + b) mod 3)"
  by (simp add: selected_category_def Z3_def CommutativeAdditiveGroups_def AdditiveGroups_def)

lemma Z3_closed_plus: "\<forall>g h. contains Z3 g \<and> contains Z3 h \<longrightarrow> contains Z3 ((g + h) mod 3)"
  by (simp add: Z3_def)

lemma example_elements_C3:
  "algebra_element A [(1, 2), (2, 3 :: int)]" "algebra_element A [(1, 1), (2, 1 :: int)]"
  if "basis_keys A = C3" for A :: "nat algebra_parent"
  using that by (simp_all add: algebra_element_def is_element_def is_dict_def C3_def)

theorem functor_constructs_algebra_with_induced_product_witness:
  "in_category ZZ Rings \<and>
   (Magma \<in> selected_category C3 None \<and> AdditiveMagma \<notin> selected_category C3 None \<and>
      times_op C3 = Some (\<lambda>a b. (a + b) mod 3)) \<and>
   (\<exists>F A. AlgebraFunctor_init ZZ = Inr F \<and> AlgebraFunctor_call F C3 None = Inr A \<and>
      apply_functor (GroupAlgebraFunctor_init C3) ZZ = Inr A \<and>
      GroupAlgebraFunctor_call (GroupAlgebraFunctor_init C3) ZZ = Inr A \<and>
      algebra_element A (monomial 1 :: (nat \<times> int) list) \<and>
      product A (monomial 1) (monomial 2) = Inr (monomial 0 :: (nat \<times> int) list) \<and>
      (\<exists>p. product A [(1, 2), (2, 3 :: int)] [(1, 1), (2, 1)] = Inr p \<and>
         algebra_element A p \<and> coefficient p 0 = 5)) \<and>
   (Magma \<in> selected_category Z3 (Some Monoids) \<and>
      AdditiveMagma \<notin> selected_category Z3 (Some Monoids) \<and>
      times_op Z3 = Some (\<lambda>a b. (a * b) mod 3)) \<and>
   (\<exists>F A. AlgebraFunctor_init ZZ = Inr F \<and> AlgebraFunctor_call F Z3 (Some Monoids) = Inr A \<and>
      product A (monomial 2) (monomial 2) = Inr (monomial 1 :: (nat \<times> int) list)) \<and>
   (AdditiveMagma \<in> selected_category Z3 (Some CommutativeAdditiveGroups) \<and>
      Magma \<notin> selected_category Z3 (Some CommutativeAdditiveGroups) \<and>
      plus_op Z3 = Some (\<lambda>a b. (a + b) mod 3)) \<and>
   (\<exists>F A. AlgebraFunctor_init ZZ = Inr F \<and>
      AlgebraFunctor_call F Z3 (Some CommutativeAdditiveGroups) = Inr A \<and>
      product A (monomial 2) (monomial 2) = Inr (monomial 1 :: (nat \<times> int) list))"
proof -
  have h1: "(Magma \<in> selected_category C3 None \<and> AdditiveMagma \<notin> selected_category C3 None \<and>
               times_op C3 = Some (\<lambda>a b. (a + b) mod 3)) \<or>
            (AdditiveMagma \<in> selected_category C3 None \<and> Magma \<notin> selected_category C3 None \<and>
               plus_op C3 = Some (\<lambda>a b. (a + b) mod 3))"
    using C3_selected by (rule disjI1)
  have h2: "(Magma \<in> selected_category Z3 (Some Monoids) \<and>
               AdditiveMagma \<notin> selected_category Z3 (Some Monoids) \<and>
               times_op Z3 = Some (\<lambda>a b. (a * b) mod 3)) \<or>
            (AdditiveMagma \<in> selected_category Z3 (Some Monoids) \<and>
               Magma \<notin> selected_category Z3 (Some Monoids) \<and>
               plus_op Z3 = Some (\<lambda>a b. (a * b) mod 3))"
    using Z3_selected_monoid by (rule disjI1)
  have h3: "(Magma \<in> selected_category Z3 (Some CommutativeAdditiveGroups) \<and>
               AdditiveMagma \<notin> selected_category Z3 (Some CommutativeAdditiveGroups) \<and>
               times_op Z3 = Some (\<lambda>a b. (a + b) mod 3)) \<or>
            (AdditiveMagma \<in> selected_category Z3 (Some CommutativeAdditiveGroups) \<and>
               Magma \<notin> selected_category Z3 (Some CommutativeAdditiveGroups) \<and>
               plus_op Z3 = Some (\<lambda>a b. (a + b) mod 3))"
    using Z3_selected_additive by (rule disjI2)
  from functor_constructs_algebra_with_induced_product[where 'c = int, OF ZZ_ring h1 C3_closed]
  obtain F A where H: "AlgebraFunctor_init ZZ = Inr F \<and> AlgebraFunctor_call F C3 None = Inr A \<and>
     ((None :: category option) = None \<longrightarrow>
        apply_functor (GroupAlgebraFunctor_init C3) ZZ = Inr A \<and>
        GroupAlgebraFunctor_call (GroupAlgebraFunctor_init C3) ZZ = Inr A) \<and>
     basis_keys A = C3 \<and> algebra_base_ring A = ZZ \<and>
     (\<forall>g. contains C3 g \<longrightarrow>
        algebra_element A (monomial g :: (nat \<times> int) list) \<and>
        (\<forall>k. coefficient (monomial g :: (nat \<times> int) list) k = (if g = k then 1 else 0))) \<and>
     (\<forall>x :: (nat \<times> int) list. algebra_element A x \<longrightarrow>
        linear_combination (map (\<lambda>(g, c). (monomial g, c)) x) = x) \<and>
     (\<forall>(x :: (nat \<times> int) list) y.
        algebra_element A x \<and> algebra_element A y \<and> (\<forall>k. coefficient x k = coefficient y k)
        \<longrightarrow> set x = set y) \<and>
     (\<forall>g h. contains C3 g \<and> contains C3 h \<longrightarrow>
        contains C3 ((\<lambda>a b. (a + b) mod 3) g h) \<and>
        product A (monomial g) (monomial h) = Inr (monomial ((\<lambda>a b. (a + b) mod 3) g h) :: (nat \<times> int) list)) \<and>
     (\<forall>(x :: (nat \<times> int) list) y. algebra_element A x \<and> algebra_element A y \<longrightarrow>
        (\<exists>p. product A x y = Inr p \<and> algebra_element A p \<and>
           (\<forall>k. coefficient p k = convolution (\<lambda>a b. (a + b) mod 3) x y k))) \<and>
     (\<forall>(x :: (nat \<times> int) list) x' y. \<exists>p q q'.
        product A (element_add x x') y = Inr p \<and> product A x y = Inr q \<and>
        product A x' y = Inr q' \<and> (\<forall>k. coefficient p k = coefficient q k + coefficient q' k)) \<and>
     (\<forall>(x :: (nat \<times> int) list) y y'. \<exists>p q q'.
        product A x (element_add y y') = Inr p \<and> product A x y = Inr q \<and>
        product A x y' = Inr q' \<and> (\<forall>k. coefficient p k = coefficient q k + coefficient q' k)) \<and>
     (\<forall>a (x :: (nat \<times> int) list) y. \<exists>p q.
        product A (scalar_mult a x) y = Inr p \<and> product A x y = Inr q \<and>
        (\<forall>k. coefficient p k = a * coefficient q k))"
    by (elim exE)
  from functor_constructs_algebra_with_induced_product[where 'c = int, OF ZZ_ring h2 Z3_closed_times]
  obtain F2 A2 where H2: "AlgebraFunctor_init ZZ = Inr F2 \<and> AlgebraFunctor_call F2 Z3 (Some Monoids) = Inr A2 \<and>
     ((Some Monoids) = None \<longrightarrow>
        apply_functor (GroupAlgebraFunctor_init Z3) ZZ = Inr A2 \<and>
        GroupAlgebraFunctor_call (GroupAlgebraFunctor_init Z3) ZZ = Inr A2) \<and>
     basis_keys A2 = Z3 \<and> algebra_base_ring A2 = ZZ \<and>
     (\<forall>g. contains Z3 g \<longrightarrow>
        algebra_element A2 (monomial g :: (nat \<times> int) list) \<and>
        (\<forall>k. coefficient (monomial g :: (nat \<times> int) list) k = (if g = k then 1 else 0))) \<and>
     (\<forall>x :: (nat \<times> int) list. algebra_element A2 x \<longrightarrow>
        linear_combination (map (\<lambda>(g, c). (monomial g, c)) x) = x) \<and>
     (\<forall>(x :: (nat \<times> int) list) y.
        algebra_element A2 x \<and> algebra_element A2 y \<and> (\<forall>k. coefficient x k = coefficient y k)
        \<longrightarrow> set x = set y) \<and>
     (\<forall>g h. contains Z3 g \<and> contains Z3 h \<longrightarrow>
        contains Z3 ((\<lambda>a b. (a * b) mod 3) g h) \<and>
        product A2 (monomial g) (monomial h) = Inr (monomial ((\<lambda>a b. (a * b) mod 3) g h) :: (nat \<times> int) list)) \<and>
     (\<forall>(x :: (nat \<times> int) list) y. algebra_element A2 x \<and> algebra_element A2 y \<longrightarrow>
        (\<exists>p. product A2 x y = Inr p \<and> algebra_element A2 p \<and>
           (\<forall>k. coefficient p k = convolution (\<lambda>a b. (a * b) mod 3) x y k))) \<and>
     (\<forall>(x :: (nat \<times> int) list) x' y. \<exists>p q q'.
        product A2 (element_add x x') y = Inr p \<and> product A2 x y = Inr q \<and>
        product A2 x' y = Inr q' \<and> (\<forall>k. coefficient p k = coefficient q k + coefficient q' k)) \<and>
     (\<forall>(x :: (nat \<times> int) list) y y'. \<exists>p q q'.
        product A2 x (element_add y y') = Inr p \<and> product A2 x y = Inr q \<and>
        product A2 x y' = Inr q' \<and> (\<forall>k. coefficient p k = coefficient q k + coefficient q' k)) \<and>
     (\<forall>a (x :: (nat \<times> int) list) y. \<exists>p q.
        product A2 (scalar_mult a x) y = Inr p \<and> product A2 x y = Inr q \<and>
        (\<forall>k. coefficient p k = a * coefficient q k))"
    by (elim exE)
  from functor_constructs_algebra_with_induced_product[where 'c = int, OF ZZ_ring h3 Z3_closed_plus]
  obtain F3 A3 where H3: "AlgebraFunctor_init ZZ = Inr F3 \<and> AlgebraFunctor_call F3 Z3 (Some CommutativeAdditiveGroups) = Inr A3 \<and>
     ((Some CommutativeAdditiveGroups) = None \<longrightarrow>
        apply_functor (GroupAlgebraFunctor_init Z3) ZZ = Inr A3 \<and>
        GroupAlgebraFunctor_call (GroupAlgebraFunctor_init Z3) ZZ = Inr A3) \<and>
     basis_keys A3 = Z3 \<and> algebra_base_ring A3 = ZZ \<and>
     (\<forall>g. contains Z3 g \<longrightarrow>
        algebra_element A3 (monomial g :: (nat \<times> int) list) \<and>
        (\<forall>k. coefficient (monomial g :: (nat \<times> int) list) k = (if g = k then 1 else 0))) \<and>
     (\<forall>x :: (nat \<times> int) list. algebra_element A3 x \<longrightarrow>
        linear_combination (map (\<lambda>(g, c). (monomial g, c)) x) = x) \<and>
     (\<forall>(x :: (nat \<times> int) list) y.
        algebra_element A3 x \<and> algebra_element A3 y \<and> (\<forall>k. coefficient x k = coefficient y k)
        \<longrightarrow> set x = set y) \<and>
     (\<forall>g h. contains Z3 g \<and> contains Z3 h \<longrightarrow>
        contains Z3 ((\<lambda>a b. (a + b) mod 3) g h) \<and>
        product A3 (monomial g) (monomial h) = Inr (monomial ((\<lambda>a b. (a + b) mod 3) g h) :: (nat \<times> int) list)) \<and>
     (\<forall>(x :: (nat \<times> int) list) y. algebra_element A3 x \<and> algebra_element A3 y \<longrightarrow>
        (\<exists>p. product A3 x y = Inr p \<and> algebra_element A3 p \<and>
           (\<forall>k. coefficient p k = convolution (\<lambda>a b. (a + b) mod 3) x y k))) \<and>
     (\<forall>(x :: (nat \<times> int) list) x' y. \<exists>p q q'.
        product A3 (element_add x x') y = Inr p \<and> product A3 x y = Inr q \<and>
        product A3 x' y = Inr q' \<and> (\<forall>k. coefficient p k = coefficient q k + coefficient q' k)) \<and>
     (\<forall>(x :: (nat \<times> int) list) y y'. \<exists>p q q'.
        product A3 x (element_add y y') = Inr p \<and> product A3 x y = Inr q \<and>
        product A3 x y' = Inr q' \<and> (\<forall>k. coefficient p k = coefficient q k + coefficient q' k)) \<and>
     (\<forall>a (x :: (nat \<times> int) list) y. \<exists>p q.
        product A3 (scalar_mult a x) y = Inr p \<and> product A3 x y = Inr q \<and>
        (\<forall>k. coefficient p k = a * coefficient q k))"
    by (elim exE)
  note i = H[THEN conjunct1]
  note a = H[THEN conjunct2, THEN conjunct1]
  note r1 = H[THEN conjunct2, THEN conjunct2]
  note g = r1[THEN conjunct1, rule_format, OF refl]
  note keys = r1[THEN conjunct2, THEN conjunct1]
  note r2 = r1[THEN conjunct2, THEN conjunct2, THEN conjunct2]
  have c1: "contains C3 1" and c2: "contains C3 2"
    by (simp_all add: C3_def)
  have mon: "algebra_element A (monomial 1 :: (nat \<times> int) list)"
    using r2[THEN conjunct1, rule_format, OF c1] by (rule conjunct1)
  note r3 = r2[THEN conjunct2, THEN conjunct2, THEN conjunct2]
  have pm: "product A (monomial 1) (monomial 2) = Inr (monomial 0 :: (nat \<times> int) list)"
    using r3[THEN conjunct1, rule_format, OF conjI[OF c1 c2], THEN conjunct2] by simp
  from r3[THEN conjunct2, THEN conjunct1, rule_format,
      OF conjI[OF example_elements_C3(1)[OF keys] example_elements_C3(2)[OF keys]]]
  obtain q where q: "product A [(1, 2), (2, 3 :: int)] [(1, 1), (2, 1)] = Inr q"
    and qe: "algebra_element A q"
    and qc: "\<forall>k. coefficient q k =
       convolution (\<lambda>a b. (a + b) mod 3) [(1, 2), (2, 3)] [(1, 1), (2, 1)] k"
    by (elim exE conjE)
  have q0: "coefficient q 0 = 5"
    unfolding qc[rule_format] by (simp add: convolution_def)
  have pq: "\<exists>p. product A [(1, 2), (2, 3 :: int)] [(1, 1), (2, 1)] = Inr p \<and>
         algebra_element A p \<and> coefficient p 0 = 5"
    using q qe q0 by (intro exI[of _ q] conjI)
  have z2: "contains Z3 2"
    by (simp add: Z3_def)
  note i2 = H2[THEN conjunct1]
  note a2 = H2[THEN conjunct2, THEN conjunct1]
  note s2 = H2[THEN conjunct2, THEN conjunct2, THEN conjunct2, THEN conjunct2, THEN conjunct2,
      THEN conjunct2, THEN conjunct2, THEN conjunct2]
  have pm2: "product A2 (monomial 2) (monomial 2) = Inr (monomial 1 :: (nat \<times> int) list)"
    using s2[THEN conjunct1, rule_format, OF conjI[OF z2 z2], THEN conjunct2] by simp
  note i3 = H3[THEN conjunct1]
  note a3 = H3[THEN conjunct2, THEN conjunct1]
  note s3 = H3[THEN conjunct2, THEN conjunct2, THEN conjunct2, THEN conjunct2, THEN conjunct2,
      THEN conjunct2, THEN conjunct2, THEN conjunct2]
  have pm3: "product A3 (monomial 2) (monomial 2) = Inr (monomial 1 :: (nat \<times> int) list)"
    using s3[THEN conjunct1, rule_format, OF conjI[OF z2 z2], THEN conjunct2] by simp
  have e1: "\<exists>F A. AlgebraFunctor_init ZZ = Inr F \<and> AlgebraFunctor_call F C3 None = Inr A \<and>
      apply_functor (GroupAlgebraFunctor_init C3) ZZ = Inr A \<and>
      GroupAlgebraFunctor_call (GroupAlgebraFunctor_init C3) ZZ = Inr A \<and>
      algebra_element A (monomial 1 :: (nat \<times> int) list) \<and>
      product A (monomial 1) (monomial 2) = Inr (monomial 0 :: (nat \<times> int) list) \<and>
      (\<exists>p. product A [(1, 2), (2, 3 :: int)] [(1, 1), (2, 1)] = Inr p \<and>
         algebra_element A p \<and> coefficient p 0 = 5)"
    using i a g[THEN conjunct1] g[THEN conjunct2] mon pm pq
    by (intro exI[of _ F] exI[of _ A] conjI)
  have e2: "\<exists>F A. AlgebraFunctor_init ZZ = Inr F \<and> AlgebraFunctor_call F Z3 (Some Monoids) = Inr A \<and>
      product A (monomial 2) (monomial 2) = Inr (monomial 1 :: (nat \<times> int) list)"
    using i2 a2 pm2 by (intro exI[of _ F2] exI[of _ A2] conjI)
  have e3: "\<exists>F A. AlgebraFunctor_init ZZ = Inr F \<and>
      AlgebraFunctor_call F Z3 (Some CommutativeAdditiveGroups) = Inr A \<and>
      product A (monomial 2) (monomial 2) = Inr (monomial 1 :: (nat \<times> int) list)"
    using i3 a3 pm3 by (intro exI[of _ F3] exI[of _ A3] conjI)
  show ?thesis
    by (rule conjI[OF ZZ_ring conjI[OF C3_selected conjI[OF e1
        conjI[OF Z3_selected_monoid conjI[OF e2 conjI[OF Z3_selected_additive e3]]]]]])
qed

section \<open>The coproduct on the basis\<close>

lemma zero_ring_remove_zeros:
  fixes d :: "('g \<times> 'c::{semiring_0,monoid_mult}) list"
  assumes "(1::'c) = 0"
  shows "remove_zeros d = []"
proof -
  have "c = 0" for c :: 'c
  proof -
    have "c = c * 1" by simp
    also have "\<dots> = 0" unfolding assms by simp
    finally show ?thesis .
  qed
  then show ?thesis
    by (simp add: remove_zeros_def)
qed

lemma zero_ring_sum_of_terms:
  fixes ts :: "('g \<times> 'c::{semiring_0,monoid_mult}) list"
  shows "(1::'c) = 0 \<Longrightarrow> sum_of_terms ts = []"
  by (simp add: sum_of_terms_def zero_ring_remove_zeros)

lemma basis_term_one: "basis_term g 1 = monomial g"
  by (simp add: monomial_def)

lemma tensor_monomials:
  "tensor (monomial g) (monomial h) = (monomial (g, h) :: (('g \<times> 'h) \<times> 'c::{semiring_0,monoid_mult}) list)"
proof (cases "(1::'c) = 0")
  case True
  then show ?thesis
    by (simp add: tensor_def monomial_eq sum_of_terms_Nil)
next
  case False
  then show ?thesis
    by (simp add: tensor_def monomial_eq sum_of_terms_single)
qed

lemma coproduct_on_basis_monomial:
  "coproduct_on_basis self g = (monomial (g, g) :: (('g \<times> 'g) \<times> 'c::{semiring_0,monoid_mult}) list)"
  by (simp add: coproduct_on_basis_def basis_term_one tensor_monomials)

lemma coproduct_terms:
  fixes x :: "('g \<times> 'c::{semiring_0,monoid_mult}) list"
  shows "coproduct self x = sum_of_terms (map (\<lambda>(g, c). ((g, g), c)) x)"
proof (cases "(1::'c) = 0")
  case True
  then show ?thesis
    by (simp add: coproduct_def linear_combination_def zero_ring_sum_of_terms)
next
  case False
  have "concat (map (\<lambda>(v, a). scale_terms a v)
          (map (\<lambda>(g, c). (coproduct_on_basis self g :: (('g \<times> 'g) \<times> 'c) list, c)) x))
        = map (\<lambda>(g, c). ((g, g), c)) x"
    using False
    by (induction x) (auto simp: coproduct_on_basis_monomial monomial_eq scale_terms_def)
  then show ?thesis
    by (simp add: coproduct_def linear_combination_def)
qed

lemma is_element_diagonal:
  "is_element x \<Longrightarrow> is_element (map (\<lambda>(g, c). ((g, g), c)) x)"
  by (auto simp: is_element_def is_dict_def list_all_iff distinct_map inj_on_def
      case_prod_beta o_def)

lemma total_diagonal:
  fixes x :: "('g \<times> 'c::monoid_add) list"
  shows "total (map (\<lambda>(g, c). ((g, g), c)) x) (h, k) = (if h = k then total x h else 0)"
  by (induction x) (auto simp: total_Cons total_Nil)

text \<open>
  C8: for every basis index \<open>g\<close>, \<^verbatim>\<open>coproduct_on_basis(g)\<close> is the tensor product of the
  basis element of \<open>g\<close> with itself, the basis element indexed by \<open>(g, g)\<close> of the tensor
  square; so the coproduct of an element with coefficients \<open>c\<close> on \<open>g\<close> is the sum of the
  terms \<open>c\<close> on \<open>(g, g)\<close>: its coefficient on \<open>(h, k)\<close> is that of the element on \<open>h\<close> where
  \<open>h = k\<close> and zero elsewhere.
\<close>

theorem coproduct_on_basis_group_like:
  fixes self :: "'g algebra_parent" and x :: "('g \<times> 'c::{ring,monoid_mult}) list"
  shows "coproduct_on_basis self g = tensor (monomial g) (monomial g :: ('g \<times> 'c) list) \<and>
     coproduct_on_basis self g = (monomial (g, g) :: (('g \<times> 'g) \<times> 'c) list) \<and>
     (\<forall>h k. coefficient (coproduct_on_basis self g :: (('g \<times> 'g) \<times> 'c) list) (h, k)
               = (if h = g \<and> k = g then 1 else 0)) \<and>
     coproduct self x = sum_of_terms (map (\<lambda>(g, c). ((g, g), c)) x) \<and>
     (is_element x \<longrightarrow> coproduct self x = map (\<lambda>(g, c). ((g, g), c)) x) \<and>
     (is_dict x \<longrightarrow>
        (\<forall>h k. coefficient (coproduct self x) (h, k) = (if h = k then coefficient x h else 0)))"
proof (intro conjI impI allI)
  show "coproduct_on_basis self g = tensor (monomial g) (monomial g :: ('g \<times> 'c) list)"
    by (simp add: coproduct_on_basis_def basis_term_one Let_def)
  show "coproduct_on_basis self g = (monomial (g, g) :: (('g \<times> 'g) \<times> 'c) list)"
    by (rule coproduct_on_basis_monomial)
  show "coefficient (coproduct_on_basis self g :: (('g \<times> 'g) \<times> 'c) list) (h, k)
               = (if h = g \<and> k = g then 1 else 0)" for h k
    by (auto simp: coproduct_on_basis_monomial coefficient_monomial)
  show "coproduct self x = sum_of_terms (map (\<lambda>(g, c). ((g, g), c)) x)"
    by (rule coproduct_terms)
  show "coproduct self x = map (\<lambda>(g, c). ((g, g), c)) x" if "is_element x"
    using that by (simp add: coproduct_terms sum_of_terms_element is_element_diagonal)
  show "coefficient (coproduct self x) (h, k) = (if h = k then coefficient x h else 0)"
    if "is_dict x" for h k
    using that
    by (simp add: coproduct_terms coefficient_sum_of_terms total_diagonal total_dict)
qed

theorem coproduct_on_basis_group_like_witness:
  "is_element [(1::nat, 2::int), (2, 3)] \<and> is_dict [(1::nat, 2::int), (2, 3)] \<and>
   coproduct_on_basis ZC3 (1::nat) = [((1, 1), 1::int)] \<and>
   coproduct ZC3 [(1::nat, 2::int), (2, 3)] = [((1, 1), 2), ((2, 2), 3)] \<and>
   coefficient (coproduct ZC3 [(1::nat, 2::int), (2, 3)]) (2, 2) = 3 \<and>
   coefficient (coproduct ZC3 [(1::nat, 2::int), (2, 3)]) (1, 2) = 0"
proof -
  note T = coproduct_on_basis_group_like[of ZC3 "1::nat" "[(1::nat, 2::int), (2, 3)]"]
  have e: "is_element [(1::nat, 2::int), (2, 3)]" and d: "is_dict [(1::nat, 2::int), (2, 3)]"
    by (simp_all add: is_element_def is_dict_def)
  have a: "coproduct_on_basis ZC3 (1::nat) = [((1, 1), 1::int)]"
    using T[THEN conjunct2, THEN conjunct1] by (simp add: monomial_eq)
  note rest = T[THEN conjunct2, THEN conjunct2, THEN conjunct2, THEN conjunct2]
  have b: "coproduct ZC3 [(1::nat, 2::int), (2, 3)] = [((1, 1), 2), ((2, 2), 3)]"
    using rest[THEN conjunct1, rule_format, OF e] by simp
  have c1: "coefficient (coproduct ZC3 [(1::nat, 2::int), (2, 3)]) (2, 2) = 3"
    using rest[THEN conjunct2, rule_format, OF d, of 2 2] by (simp add: coefficient_def)
  have c2: "coefficient (coproduct ZC3 [(1::nat, 2::int), (2, 3)]) (1, 2) = 0"
    using rest[THEN conjunct2, rule_format, OF d, of 1 2] by (simp add: coefficient_def)
  show ?thesis
    using e d a b c1 c2 by (intro conjI)
qed

section \<open>The class call as a shorthand\<close>

text \<open>
  C9: for a concrete subclass of \<^verbatim>\<open>AlgebrasCategory\<close> with base category class \<open>Cat\<close>,
  calling the subclass with a first argument that is not an instance of \<open>Cat\<close> (the base
  ring) gives the category object that \<^verbatim>\<open>Cat().Algebras(ring)\<close> gives.
\<close>

theorem classcall_shorthand:
  assumes "base_category_class_tuple cls = Cat # others"
    and "functor_category_name cls = ''Algebras''"
    and "\<not> isinstance ring Cat"
  shows "classcall cls ring R = Inr (Algebras (instantiate Cat) ring)"
  using assms
  by (simp add: classcall_def Algebras_def category_of_def AlgebrasCategory_class_def)

theorem classcall_shorthand_witness:
  "base_category_class_tuple GroupsAlgebras_class = Groups_class # [] \<and>
   functor_category_name GroupsAlgebras_class = ''Algebras'' \<and>
   \<not> isinstance (PyParent ZZ) Groups_class \<and>
   classcall GroupsAlgebras_class (PyParent ZZ) PyNone =
     Inr \<lparr>construction_name = ''Algebras'',
          construction_base = PyCategory Groups_class Groups,
          construction_args = [PyParent ZZ]\<rparr> \<and>
   Algebras (instantiate Groups_class) (PyParent ZZ) =
     \<lparr>construction_name = ''Algebras'',
      construction_base = PyCategory Groups_class Groups,
      construction_args = [PyParent ZZ]\<rparr>"
proof -
  have a: "base_category_class_tuple GroupsAlgebras_class = Groups_class # []"
    and b: "functor_category_name GroupsAlgebras_class = ''Algebras''"
    by (simp_all add: GroupsAlgebras_class_def)
  have c: "\<not> isinstance (PyParent ZZ) Groups_class"
    by (simp add: isinstance_def)
  have d: "Algebras (instantiate Groups_class) (PyParent ZZ) =
     \<lparr>construction_name = ''Algebras'',
      construction_base = PyCategory Groups_class Groups,
      construction_args = [PyParent ZZ]\<rparr>"
    by (simp add: Algebras_def category_of_def AlgebrasCategory_class_def instantiate_def
        Groups_class_def)
  have e: "classcall GroupsAlgebras_class (PyParent ZZ) PyNone =
     Inr \<lparr>construction_name = ''Algebras'',
          construction_base = PyCategory Groups_class Groups,
          construction_args = [PyParent ZZ]\<rparr>"
    using classcall_shorthand[OF a b c, of PyNone] d by simp
  show ?thesis
    using a b c d e by (intro conjI)
qed

section \<open>Ambiguous constructions\<close>

lemma algebra_ambiguous:
  "in_category S Semigroups \<Longrightarrow> in_category S AdditiveSemigroups \<Longrightarrow>
   algebra S R None = Inl (TypeError ambiguous_message)"
  by (simp add: algebra_def in_category_def)

lemma algebra_with_category:
  assumes "\<not> (Magma \<in> C \<and> AdditiveMagma \<in> C)"
  shows "algebra S R (Some C) =
     Inr \<lparr>algebra_base_ring = R, basis_keys = S,
          algebra_category = \<lparr>base_category = C, category_base_ring = R\<rparr>\<rparr>"
  using assms by (auto simp: algebra_def category_defs)

text \<open>
  C5: for every structure \<open>S\<close> that is both an additive and a multiplicative semigroup,
  constructing its algebra without a category argument raises a \<^verbatim>\<open>TypeError\<close> that
  states the ambiguity; with a category argument that selects the multiplicative
  structure, or the additive one, the construction succeeds on the same \<open>S\<close> and \<open>R\<close>, and
  the product of the algebra extends the operation of the selected structure. Structures
  and rings are values here: a call cannot change them.
\<close>

theorem ambiguous_construction:
  fixes S :: "'g struct"
  assumes "in_category S Semigroups" and "in_category S AdditiveSemigroups"
    and "times_op S = Some mult" and "plus_op S = Some add"
    and "AlgebraFunctor_init R = Inr F"
  shows "algebra S R None = Inl (TypeError ambiguous_message) \<and>
     AlgebraFunctor_call F S None = Inl (TypeError ambiguous_message) \<and>
     (\<forall>C. Magma \<in> C \<and> AdditiveMagma \<notin> C \<longrightarrow>
        (\<exists>A. AlgebraFunctor_call F S (Some C) = Inr A \<and> algebra S R (Some C) = Inr A \<and>
           basis_keys A = S \<and> algebra_base_ring A = R \<and>
           algebra_category A = \<lparr>base_category = C, category_base_ring = R\<rparr> \<and>
           (\<forall>g h. product A (monomial g) (monomial h)
                    = Inr (monomial (mult g h) :: ('g \<times> 'c::{ring,monoid_mult}) list)))) \<and>
     (\<forall>C. AdditiveMagma \<in> C \<and> Magma \<notin> C \<longrightarrow>
        (\<exists>A. AlgebraFunctor_call F S (Some C) = Inr A \<and> algebra S R (Some C) = Inr A \<and>
           basis_keys A = S \<and> algebra_base_ring A = R \<and>
           algebra_category A = \<lparr>base_category = C, category_base_ring = R\<rparr> \<and>
           (\<forall>g h. product A (monomial g) (monomial h)
                    = Inr (monomial (add g h) :: ('g \<times> 'c) list))))"
proof -
  have F: "functor_base_ring F = R"
    using assms(5) by (auto simp: AlgebraFunctor_init_def split: if_splits)
  have e1: "algebra S R None = Inl (TypeError ambiguous_message)"
    using assms(1,2) by (rule algebra_ambiguous)
  have e2: "AlgebraFunctor_call F S None = Inl (TypeError ambiguous_message)"
    by (simp add: AlgebraFunctor_call_def F e1)
  have m: "\<forall>C. Magma \<in> C \<and> AdditiveMagma \<notin> C \<longrightarrow>
        (\<exists>A. AlgebraFunctor_call F S (Some C) = Inr A \<and> algebra S R (Some C) = Inr A \<and>
           basis_keys A = S \<and> algebra_base_ring A = R \<and>
           algebra_category A = \<lparr>base_category = C, category_base_ring = R\<rparr> \<and>
           (\<forall>g h. product A (monomial g) (monomial h)
                    = Inr (monomial (mult g h) :: ('g \<times> 'c) list)))"
  proof (intro allI impI)
    fix C :: category
    assume C: "Magma \<in> C \<and> AdditiveMagma \<notin> C"
    let ?A = "\<lparr>algebra_base_ring = R, basis_keys = S,
          algebra_category = \<lparr>base_category = C, category_base_ring = R\<rparr>\<rparr>"
    have a: "algebra S R (Some C) = Inr ?A"
      using C by (intro algebra_with_category) simp
    have op: "induced_operation ?A = Some mult"
      using C assms(3) by (simp add: induced_operation_multiplicative)
    have p: "\<forall>g h. product ?A (monomial g) (monomial h)
                    = Inr (monomial (mult g h) :: ('g \<times> 'c) list)"
      using product_monomials[OF op] by blast
    show "\<exists>A. AlgebraFunctor_call F S (Some C) = Inr A \<and> algebra S R (Some C) = Inr A \<and>
           basis_keys A = S \<and> algebra_base_ring A = R \<and>
           algebra_category A = \<lparr>base_category = C, category_base_ring = R\<rparr> \<and>
           (\<forall>g h. product A (monomial g) (monomial h)
                    = Inr (monomial (mult g h) :: ('g \<times> 'c) list))"
      apply (rule exI[of _ ?A])
      apply (intro conjI)
           apply (simp add: AlgebraFunctor_call_def F a)
          apply (rule a)
         apply simp
        apply simp
       apply simp
      apply (rule p)
      done
  qed
  have ad: "\<forall>C. AdditiveMagma \<in> C \<and> Magma \<notin> C \<longrightarrow>
        (\<exists>A. AlgebraFunctor_call F S (Some C) = Inr A \<and> algebra S R (Some C) = Inr A \<and>
           basis_keys A = S \<and> algebra_base_ring A = R \<and>
           algebra_category A = \<lparr>base_category = C, category_base_ring = R\<rparr> \<and>
           (\<forall>g h. product A (monomial g) (monomial h)
                    = Inr (monomial (add g h) :: ('g \<times> 'c) list)))"
  proof (intro allI impI)
    fix C :: category
    assume C: "AdditiveMagma \<in> C \<and> Magma \<notin> C"
    let ?A = "\<lparr>algebra_base_ring = R, basis_keys = S,
          algebra_category = \<lparr>base_category = C, category_base_ring = R\<rparr>\<rparr>"
    have a: "algebra S R (Some C) = Inr ?A"
      using C by (intro algebra_with_category) simp
    have op: "induced_operation ?A = Some add"
      using C assms(4) by (simp add: induced_operation_additive)
    have p: "\<forall>g h. product ?A (monomial g) (monomial h)
                    = Inr (monomial (add g h) :: ('g \<times> 'c) list)"
      using product_monomials[OF op] by blast
    show "\<exists>A. AlgebraFunctor_call F S (Some C) = Inr A \<and> algebra S R (Some C) = Inr A \<and>
           basis_keys A = S \<and> algebra_base_ring A = R \<and>
           algebra_category A = \<lparr>base_category = C, category_base_ring = R\<rparr> \<and>
           (\<forall>g h. product A (monomial g) (monomial h)
                    = Inr (monomial (add g h) :: ('g \<times> 'c) list))"
      apply (rule exI[of _ ?A])
      apply (intro conjI)
           apply (simp add: AlgebraFunctor_call_def F a)
          apply (rule a)
         apply simp
        apply simp
       apply simp
      apply (rule p)
      done
  qed
  show ?thesis
    using e1 e2 m ad by (intro conjI)
qed

lemma Z3_semigroup: "in_category Z3 Semigroups"
  by (simp add: Z3_def category_defs)

lemma Z3_additive_semigroup: "in_category Z3 AdditiveSemigroups"
  by (simp add: Z3_def category_defs)

theorem ambiguous_construction_witness:
  "in_category Z3 Semigroups \<and> in_category Z3 AdditiveSemigroups \<and>
   times_op Z3 = Some (\<lambda>a b. (a * b) mod 3) \<and> plus_op Z3 = Some (\<lambda>a b. (a + b) mod 3) \<and>
   AlgebraFunctor_init ZZ = Inr \<lparr>functor_base_ring = ZZ\<rparr> \<and>
   AlgebraFunctor_call \<lparr>functor_base_ring = ZZ\<rparr> Z3 None = Inl (TypeError ambiguous_message) \<and>
   (\<exists>A. AlgebraFunctor_call \<lparr>functor_base_ring = ZZ\<rparr> Z3 (Some Monoids) = Inr A \<and>
      base_category (algebra_category A) = Monoids \<and>
      product A (monomial 1) (monomial 2) = Inr (monomial 2 :: (nat \<times> int) list)) \<and>
   (\<exists>A. AlgebraFunctor_call \<lparr>functor_base_ring = ZZ\<rparr> Z3 (Some CommutativeAdditiveGroups) = Inr A \<and>
      base_category (algebra_category A) = CommutativeAdditiveGroups \<and>
      product A (monomial 1) (monomial 2) = Inr (monomial 0 :: (nat \<times> int) list))"
proof -
  let ?F = "\<lparr>functor_base_ring = ZZ\<rparr>"
  have t: "times_op Z3 = Some (\<lambda>a b. (a * b) mod 3)"
    and p: "plus_op Z3 = Some (\<lambda>a b. (a + b) mod 3)"
    by (simp_all add: Z3_def)
  have i: "AlgebraFunctor_init ZZ = Inr ?F"
    using ZZ_ring by (rule AlgebraFunctor_init_ring)
  note T = ambiguous_construction[where 'c = int, OF Z3_semigroup Z3_additive_semigroup t p i]
  note e = T[THEN conjunct2, THEN conjunct1]
  have mon: "Magma \<in> Monoids \<and> AdditiveMagma \<notin> Monoids"
    by (simp add: Monoids_def)
  have cag: "AdditiveMagma \<in> CommutativeAdditiveGroups \<and> Magma \<notin> CommutativeAdditiveGroups"
    by (simp add: CommutativeAdditiveGroups_def AdditiveGroups_def)
  from T[THEN conjunct2, THEN conjunct2, THEN conjunct1, rule_format, OF mon]
  obtain A where A: "AlgebraFunctor_call ?F Z3 (Some Monoids) = Inr A"
    and Ac: "algebra_category A = \<lparr>base_category = Monoids, category_base_ring = ZZ\<rparr>"
    and Ap: "\<forall>g h. product A (monomial g) (monomial h)
               = Inr (monomial ((g * h) mod 3) :: (nat \<times> int) list)"
    by (elim exE conjE)
  from T[THEN conjunct2, THEN conjunct2, THEN conjunct2, rule_format, OF cag]
  obtain B where B: "AlgebraFunctor_call ?F Z3 (Some CommutativeAdditiveGroups) = Inr B"
    and Bc: "algebra_category B = \<lparr>base_category = CommutativeAdditiveGroups, category_base_ring = ZZ\<rparr>"
    and Bp: "\<forall>g h. product B (monomial g) (monomial h)
               = Inr (monomial ((g + h) mod 3) :: (nat \<times> int) list)"
    by (elim exE conjE)
  have A2: "base_category (algebra_category A) = Monoids"
    unfolding Ac by simp
  have A3: "product A (monomial 1) (monomial 2) = Inr (monomial 2 :: (nat \<times> int) list)"
    using Ap[rule_format, of 1 2] by simp
  have B2: "base_category (algebra_category B) = CommutativeAdditiveGroups"
    unfolding Bc by simp
  have B3: "product B (monomial 1) (monomial 2) = Inr (monomial 0 :: (nat \<times> int) list)"
    using Bp[rule_format, of 1 2] by simp
  show ?thesis
    apply (intro conjI)
           apply (rule Z3_semigroup Z3_additive_semigroup t p i e)+
     apply (rule exI[of _ A], intro conjI, rule A, rule A2, rule A3)
    apply (rule exI[of _ B], intro conjI, rule B, rule B2, rule B3)
    done
qed

end
